theory Spec2Isabelle
  imports Main
begin

section \<open>Strings as Python sees them\<close>

text \<open>
  A Python \<open>str\<close> is modelled as a \<open>string\<close>, one \<open>char\<close> per code point, so the
  model covers the code points below 256.  \<open>isspace\<close> is \<open>str.isspace\<close> on one such
  character: the ASCII white space (TAB, LF, VT, FF, CR, the four separators FS, GS, RS, US
  and the blank) and, above ASCII, NEL (0x85) and the no-break space (0xA0).
\<close>

definition isspace :: "char \<Rightarrow> bool" where
  "isspace c \<longleftrightarrow> (of_char c :: nat) \<in> {9, 10, 11, 12, 13, 28, 29, 30, 31, 32, 133, 160}"

text \<open>\<open>s.lstrip()\<close>, \<open>s.rstrip()\<close>, \<open>s.strip()\<close> and \<open>s.rstrip(chars)\<close>.\<close>

definition rstrip_with :: "(char \<Rightarrow> bool) \<Rightarrow> string \<Rightarrow> string" where
  "rstrip_with p s = rev (dropWhile p (rev s))"

definition strip :: "string \<Rightarrow> string" where
  "strip s = rstrip_with isspace (dropWhile isspace s)"

definition rstrip_chars :: "string \<Rightarrow> string \<Rightarrow> string" where
  "rstrip_chars chars s = rstrip_with (\<lambda>c. c \<in> set chars) s"

text \<open>\<open>sep.join(parts)\<close>.\<close>

fun join :: "string \<Rightarrow> string list \<Rightarrow> string" where
  "join sep [] = []"
| "join sep [p] = p"
| "join sep (p # q # ps) = p @ sep @ join sep (q # ps)"

text \<open>
  \<open>repr(s)\<close> of a string.  The text is put between single quotes, or between double quotes
  when it holds a single quote and no double quote.  Inside, the backslash and the chosen
  quote get a backslash in front, TAB, LF and CR are written \<open>\t\<close>, \<open>\n\<close>, \<open>\r\<close>, every
  other character that is not printable is written \<open>\xhh\<close> with two lower-case hexadecimal
  digits, and a printable character stands for itself.  Below 256 the printable characters
  are the ASCII ones from the blank to the tilde and those from 0xA1 on, the soft hyphen
  0xAD left out.
\<close>

definition printable :: "char \<Rightarrow> bool" where
  "printable c \<longleftrightarrow>
     (32 \<le> (of_char c :: nat) \<and> (of_char c :: nat) < 127) \<or>
     (161 \<le> (of_char c :: nat) \<and> (of_char c :: nat) \<noteq> 173)"

definition hex_digit :: "nat \<Rightarrow> char" where
  "hex_digit n = ''0123456789abcdef'' ! (n mod 16)"

definition repr_char :: "char \<Rightarrow> char \<Rightarrow> string" where
  "repr_char quote c =
     (if c = quote \<or> c = CHR 0x5C then [CHR 0x5C, c]
      else if c = CHR 0x09 then [CHR 0x5C, CHR ''t'']
      else if c = CHR 0x0A then [CHR 0x5C, CHR ''n'']
      else if c = CHR 0x0D then [CHR 0x5C, CHR ''r'']
      else if \<not> printable c then
        [CHR 0x5C, CHR ''x'', hex_digit (of_char c div 16), hex_digit (of_char c mod 16)]
      else [c])"

definition py_repr :: "string \<Rightarrow> string" where
  "py_repr s =
     (let quote = (if CHR 0x27 \<in> set s \<and> CHR 0x22 \<notin> set s then CHR 0x22 else CHR 0x27)
      in quote # concat (map (repr_char quote) s) @ [quote])"

section \<open>The sanitizer \<open>_clean_sql\<close>\<close>

text \<open>
  \<open>ieq p c\<close>: the character \<open>c\<close> matches the lower-case pattern letter \<open>p\<close> under
  \<open>re.IGNORECASE\<close>, that is, \<open>c\<close> is \<open>p\<close> or its upper-case form.
\<close>

definition ieq :: "char \<Rightarrow> char \<Rightarrow> bool" where
  "ieq p c \<longleftrightarrow> c = p \<or> (of_char c :: nat) + 32 = of_char p"

text \<open>
  \<open>re.sub(r"```(?:sql)?|```", "", sql_text, flags=re.IGNORECASE)\<close>: the text is scanned
  from the left; where three backticks start, they are dropped, together with the three
  letters \<open>sql\<close> (in any case) when these follow at once, and the scan goes on behind the
  match; any other character is kept.
\<close>

function re_sub_fences :: "string \<Rightarrow> string" where
  "re_sub_fences [] = []"
| "re_sub_fences (c # cs) =
     (if take 3 (c # cs) = ''```'' then
        (if list_all2 ieq ''sql'' (take 3 (drop 2 cs))
         then re_sub_fences (drop 5 cs)
         else re_sub_fences (drop 2 cs))
      else c # re_sub_fences cs)"
  by pat_completeness auto
termination
  by (relation "measure length") auto

definition clean_sql :: "string \<Rightarrow> string" where
  "clean_sql sql_text = rstrip_chars '';'' (strip (re_sub_fences sql_text))"

text \<open>A string holds a code fence when three backticks occur in it in a row.\<close>

fun has_fence :: "string \<Rightarrow> bool" where
  "has_fence [] = False"
| "has_fence (c # cs) = (take 3 (c # cs) = ''```'' \<or> has_fence cs)"

text \<open>
  A string is already sanitized when it holds no code fence, neither starts nor ends with
  white space, and does not end with a semicolon.
\<close>

definition sanitized :: "string \<Rightarrow> bool" where
  "sanitized s \<longleftrightarrow>
     \<not> has_fence s \<and>
     (s \<noteq> [] \<longrightarrow> \<not> isspace (hd s) \<and> \<not> isspace (last s) \<and> last s \<noteq> CHR '';'')"

section \<open>Messages, the workflow state and its updates\<close>

datatype message =
    HumanMessage (content: string)
  | AIMessage (content: string)
  | SystemMessage (content: string)

text \<open>
  \<open>RAGState\<close>.  The graph keeps one channel per key.  The channel of \<open>messages\<close> starts as
  the empty list and is updated through the reducer \<open>add_messages\<close>; every other channel
  holds the last value written to it and is absent (\<open>None\<close>) until a node writes it, in
  which case the key is missing from the dictionary a node receives.
\<close>

record 'row RAGState =
  messages :: "message list"
  question :: "string option"
  sql_query :: "string option"
  db_results :: "'row list option"
  final_answer :: "string option"
  error :: "string option"

definition empty_state :: "'row RAGState" where
  "empty_state = \<lparr>messages = [], question = None, sql_query = None, db_results = None,
     final_answer = None, error = None\<rparr>"

text \<open>
  The reducer of the \<open>messages\<close> channel.  The messages built by this program carry no id,
  the reducer gives each a fresh one, so none replaces an older message: the new messages
  are appended.
\<close>

definition add_messages :: "message list \<Rightarrow> message list \<Rightarrow> message list" where
  "add_messages left right = left @ right"

text \<open>The dictionary a node returns is a list of channel writes.\<close>

datatype 'row channel_write =
    W_messages "message list"
  | W_question string
  | W_sql_query string
  | W_db_results "'row list"
  | W_final_answer string
  | W_error string

fun apply_write :: "'row RAGState \<Rightarrow> 'row channel_write \<Rightarrow> 'row RAGState" where
  "apply_write st (W_messages ms) = st\<lparr>messages := add_messages (messages st) ms\<rparr>"
| "apply_write st (W_question q) = st\<lparr>question := Some q\<rparr>"
| "apply_write st (W_sql_query q) = st\<lparr>sql_query := Some q\<rparr>"
| "apply_write st (W_db_results rs) = st\<lparr>db_results := Some rs\<rparr>"
| "apply_write st (W_final_answer a) = st\<lparr>final_answer := Some a\<rparr>"
| "apply_write st (W_error e) = st\<lparr>error := Some e\<rparr>"

definition apply_writes :: "'row RAGState \<Rightarrow> 'row channel_write list \<Rightarrow> 'row RAGState" where
  "apply_writes st ws = foldl apply_write st ws"

section \<open>The agent and its collaborators\<close>

text \<open>
  Exceptions that leave a node leave the workflow: an index or key that is missing, and
  whatever the model client raises.
\<close>

datatype exn = IndexError | KeyError string | ModelError string

text \<open>
  \<open>PhoneRAGGraph\<close>: the fields of \<open>self\<close> that the workflow reads.  The store and the
  model client are outside this program: \<open>db_execute_query\<close> returns the rows or, as
  \<open>Inl\<close>, the text \<open>str(e)\<close> of the exception it raised, and \<open>llm_invoke\<close> returns the
  reply's content or, as \<open>Inl\<close>, the exception it raised.  \<open>json_dumps\<close> stands for
  \<open>json.dumps(_, indent=2)\<close>.  The few-shot examples are the pairs
  \<open>(user_question, sql_schema)\<close>.  \<open>repr_rest\<close> gives, for a message, what its field dump
  prints behind the content (see \<open>message_str\<close> below).
\<close>

record 'row PhoneRAGGraph =
  db_execute_query :: "string \<Rightarrow> string + 'row list"
  schema :: string
  examples :: "(string \<times> string) list"
  llm_invoke :: "message list \<Rightarrow> string + string"
  json_dumps :: "'row list \<Rightarrow> string"
  repr_rest :: "message \<Rightarrow> string"

text \<open>
  \<open>str(message)\<close>.  A message object prints as the dump of its fields, each as
  \<open>name=repr(value)\<close> with blanks between them, the content first: for a message built from
  the text \<open>hi\<close> alone this is \<open>content='hi' additional_kwargs={} response_metadata={}\<close>.
  Which of the further fields are printed depends on the version of the library, so what
  follows the content is left to the agent's \<open>repr_rest\<close>.
\<close>

definition message_str :: "'row PhoneRAGGraph \<Rightarrow> message \<Rightarrow> string" where
  "message_str self m = ''content='' @ py_repr (content m) @ repr_rest self m"

text \<open>The calls a node makes to the outside, in order.\<close>

datatype call = Llm_invoke "message list" | Db_execute_query string

type_synonym 'row node_result = "exn + ('row channel_write list \<times> call list)"

section \<open>The nodes\<close>

text \<open>
  \<open>extract_question_node\<close> reads \<open>messages[-1]\<close>, which raises on an empty list; the
  question is the content of a \<open>HumanMessage\<close> and \<open>str(last_message)\<close> of any other.
\<close>

definition question_of :: "'row PhoneRAGGraph \<Rightarrow> message \<Rightarrow> string" where
  "question_of self last_message =
     (case last_message of
        HumanMessage c \<Rightarrow> c
      | _ \<Rightarrow> message_str self last_message)"

definition extract_question_node ::
  "'row PhoneRAGGraph \<Rightarrow> 'row RAGState \<Rightarrow> 'row node_result" where
  "extract_question_node self st =
     (if messages st = [] then Inl IndexError
      else Inr ([W_question (question_of self (last (messages st)))], []))"

definition sql_prompt :: "string \<Rightarrow> string \<Rightarrow> string \<Rightarrow> string" where
  "sql_prompt schema_text examples_text q =
     ''\<newline>You are an expert at converting natural language questions into PostgreSQL queries.\<newline>\<newline>DATABASE SCHEMA:\<newline>''
     @ schema_text
     @ ''\<newline>\<newline>EXAMPLE QUERIES:\<newline>''
     @ examples_text
     @ ''\<newline>\<newline>RULES:\<newline>''
     @ ''1. Generate syntactically correct PostgreSQL only\<newline>''
     @ ''2. Use ILIKE for case-insensitive string matching\<newline>''
     @ ''3. Include LIMIT 5 unless specified otherwise\<newline>''
     @ ''4. Return ONLY the SQL query, no explanations or markdown\<newline>''
     @ ''5. Handle NULL values appropriately\<newline>''
     @ ''6. Use proper WHERE clauses for filtering\<newline>''
     @ ''\<newline>USER QUESTION:\<newline>''
     @ q
     @ ''\<newline>\<newline>SQL QUERY:''"

text \<open>The two messages \<open>generate_sql_node\<close> sends to the model for a question.\<close>

definition sql_messages :: "'row PhoneRAGGraph \<Rightarrow> string \<Rightarrow> message list" where
  "sql_messages self q =
     (let examples_text =
            join ''\<newline>\<newline>''
              (map (\<lambda>(uq, sq). ''Question: '' @ uq @ ''\<newline>SQL: '' @ sq) (examples self))
      in [SystemMessage ''You are a SQL expert. Generate valid PostgreSQL queries.'',
          HumanMessage (sql_prompt (schema self) examples_text q)])"

definition generate_sql_node ::
  "'row PhoneRAGGraph \<Rightarrow> 'row RAGState \<Rightarrow> 'row node_result" where
  "generate_sql_node self st =
     (case question st of
        None \<Rightarrow> Inl (KeyError ''question'')
      | Some q \<Rightarrow>
          (case llm_invoke self (sql_messages self q) of
             Inl e \<Rightarrow> Inl (ModelError e)
           | Inr response \<Rightarrow>
               Inr ([W_sql_query (clean_sql response)], [Llm_invoke (sql_messages self q)])))"

definition execute_query_node ::
  "'row PhoneRAGGraph \<Rightarrow> 'row RAGState \<Rightarrow> 'row node_result" where
  "execute_query_node self st =
     (case sql_query st of
        None \<Rightarrow> Inl (KeyError ''sql_query'')
      | Some q \<Rightarrow>
          (case db_execute_query self q of
             Inr rs \<Rightarrow> Inr ([W_db_results rs], [Db_execute_query q])
           | Inl e \<Rightarrow> Inr ([W_error (''Database error: '' @ e)], [Db_execute_query q])))"

definition no_results_answer :: string where
  "no_results_answer =
     ''I couldn't find any phones matching your criteria. Try rephrasing your question or asking about different specifications.''"

definition answer_prompt :: "string \<Rightarrow> string \<Rightarrow> string" where
  "answer_prompt q results_text =
     ''\<newline>You are a helpful Samsung smartphone expert assistant.\<newline>\<newline>USER QUESTION:\<newline>''
     @ q
     @ ''\<newline>\<newline>DATABASE RESULTS:\<newline>''
     @ results_text
     @ ''\<newline>\<newline>TASK:\<newline>''
     @ ''- Explain the results in clear, conversational English\<newline>''
     @ ''- Highlight key specifications and differences\<newline>''
     @ ''- Be specific with numbers and details\<newline>''
     @ ''- If comparing phones, present side-by-side comparisons\<newline>''
     @ ''- Keep response concise but informative (100-200 words)\<newline>''
     @ ''- Don't mention SQL or databases\<newline>''
     @ ''\<newline>ANSWER:''"

text \<open>The two messages \<open>generate_answer_node\<close> sends to the model for a non-empty row set.\<close>

definition answer_messages :: "'row PhoneRAGGraph \<Rightarrow> string \<Rightarrow> 'row list \<Rightarrow> message list" where
  "answer_messages self q rs =
     [SystemMessage ''You are a knowledgeable phone advisor who explains specifications clearly.'',
      HumanMessage (answer_prompt q (json_dumps self rs))]"

definition generate_answer_node ::
  "'row PhoneRAGGraph \<Rightarrow> 'row RAGState \<Rightarrow> 'row node_result" where
  "generate_answer_node self st =
     (case question st of
        None \<Rightarrow> Inl (KeyError ''question'')
      | Some q \<Rightarrow>
          (case db_results st of
             None \<Rightarrow> Inl (KeyError ''db_results'')
           | Some rs \<Rightarrow>
               if rs = [] then
                 Inr ([W_final_answer no_results_answer,
                       W_messages [AIMessage no_results_answer]], [])
               else
                 (case llm_invoke self (answer_messages self q rs) of
                    Inl e \<Rightarrow> Inl (ModelError e)
                  | Inr response \<Rightarrow>
                      Inr ([W_final_answer (strip response),
                            W_messages [AIMessage (strip response)]],
                           [Llm_invoke (answer_messages self q rs)]))))"

definition error_answer :: "string \<Rightarrow> string" where
  "error_answer e =
     ''I encountered an issue processing your question: '' @ e
     @ ''\<newline>\<newline>Please try rephrasing your question or ask something else about Samsung phones.''"

text \<open>\<open>state.get("error", "Unknown error occurred")\<close>.\<close>

definition recorded_error :: "'row RAGState \<Rightarrow> string" where
  "recorded_error st = (case error st of None \<Rightarrow> ''Unknown error occurred'' | Some e \<Rightarrow> e)"

definition handle_error_node ::
  "'row PhoneRAGGraph \<Rightarrow> 'row RAGState \<Rightarrow> 'row node_result" where
  "handle_error_node self st =
     Inr ([W_final_answer (error_answer (recorded_error st)),
           W_messages [AIMessage (error_answer (recorded_error st))]], [])"

definition check_sql_valid :: "'row RAGState \<Rightarrow> string" where
  "check_sql_valid st =
     (let q = (case sql_query st of None \<Rightarrow> [] | Some q \<Rightarrow> q)
      in if q \<noteq> [] \<and> length q > 10 then ''valid'' else ''invalid'')"

definition check_results :: "'row RAGState \<Rightarrow> string" where
  "check_results st =
     (if (case error st of None \<Rightarrow> False | Some e \<Rightarrow> e \<noteq> []) then ''error'' else ''success'')"

section \<open>The graph\<close>

datatype node =
  START | extract_question | generate_sql | execute_query | generate_answer | handle_error | END

fun run_node :: "'row PhoneRAGGraph \<Rightarrow> node \<Rightarrow> 'row RAGState \<Rightarrow> 'row node_result" where
  "run_node self extract_question st = extract_question_node self st"
| "run_node self generate_sql st = generate_sql_node self st"
| "run_node self execute_query st = execute_query_node self st"
| "run_node self generate_answer st = generate_answer_node self st"
| "run_node self handle_error st = handle_error_node self st"
| "run_node self START st = Inr ([], [])"
| "run_node self END st = Inr ([], [])"

text \<open>A conditional edge looks the router's answer up in its table of targets.\<close>

definition conditional_edge :: "string \<Rightarrow> (string \<times> node) list \<Rightarrow> exn + node" where
  "conditional_edge k targets =
     (case map_of targets k of None \<Rightarrow> Inl (KeyError k) | Some n \<Rightarrow> Inr n)"

fun next_node :: "node \<Rightarrow> 'row RAGState \<Rightarrow> exn + node" where
  "next_node START st = Inr extract_question"
| "next_node extract_question st = Inr generate_sql"
| "next_node generate_sql st =
     conditional_edge (check_sql_valid st)
       [(''valid'', execute_query), (''invalid'', handle_error)]"
| "next_node execute_query st =
     conditional_edge (check_results st)
       [(''success'', generate_answer), (''error'', handle_error)]"
| "next_node generate_answer st = Inr END"
| "next_node handle_error st = Inr END"
| "next_node END st = Inr END"

text \<open>
  Every edge of the graph leads to a node of lower rank, so a traversal cannot loop.
\<close>

fun rank :: "node \<Rightarrow> nat" where
  "rank START = 5"
| "rank extract_question = 4"
| "rank generate_sql = 3"
| "rank execute_query = 2"
| "rank generate_answer = 1"
| "rank handle_error = 1"
| "rank END = 0"

text \<open>
  The traversal: run the node, merge its writes into the state, follow the edge; the calls
  made to the outside and the nodes visited are recorded on the way.
\<close>

function run_from ::
  "'row PhoneRAGGraph \<Rightarrow> node \<Rightarrow> 'row RAGState \<times> call list \<times> node list \<Rightarrow>
   exn + ('row RAGState \<times> call list \<times> node list)" where
  "run_from self n (st, calls, path) =
     (if n = END then Inr (st, calls, path)
      else
        (case run_node self n st of
           Inl e \<Rightarrow> Inl e
         | Inr (ws, cs) \<Rightarrow>
             (case next_node n (apply_writes st ws) of
                Inl e \<Rightarrow> Inl e
              | Inr n' \<Rightarrow> run_from self n' (apply_writes st ws, calls @ cs, path @ [n]))))"
  by pat_completeness auto
termination
proof (relation "measure (\<lambda>(self, n, c). rank n)")
  show "wf (measure (\<lambda>(self :: 'row PhoneRAGGraph, n, c :: 'row RAGState \<times> call list \<times> node list). rank n))"
    by simp
next
  fix self :: "'row PhoneRAGGraph" and n and st :: "'row RAGState"
    and calls cs :: "call list" and path :: "node list"
    and ws :: "'row channel_write list" and n'
  assume "n \<noteq> END" and "next_node n (apply_writes st ws) = Inr n'"
  then have "rank n' < rank n"
    by (cases n) (auto simp: conditional_edge_def split: if_splits)
  then show "((self, n', apply_writes st ws, calls @ cs, path @ [n]), (self, n, st, calls, path))
      \<in> measure (\<lambda>(self, n, c). rank n)"
    by simp
qed

section \<open>Conversation memory and the entry points\<close>

text \<open>
  The checkpointer keeps, per thread id, the channel values the last traversal ended with.
  An invocation starts from them (from the empty state on a new thread), merges its input
  into the channels the input names, and traverses the graph from \<open>START\<close>.  The input of
  \<open>ask\<close> names \<open>messages\<close> only, so every other channel enters a turn with the value the
  thread's previous turn left in it.  The checkpoint left behind by a traversal that raised
  is not modelled: \<open>invoke\<close> then returns the exception alone.
\<close>

type_synonym 'row checkpointer = "string \<rightharpoonup> 'row RAGState"

definition thread_state :: "'row checkpointer \<Rightarrow> string \<Rightarrow> 'row RAGState" where
  "thread_state cp thread_id = (case cp thread_id of None \<Rightarrow> empty_state | Some st \<Rightarrow> st)"

definition invoke ::
  "'row PhoneRAGGraph \<Rightarrow> 'row checkpointer \<Rightarrow> message list \<Rightarrow> string \<Rightarrow>
   exn + (('row RAGState \<times> call list \<times> node list) \<times> 'row checkpointer)" where
  "invoke self cp input thread_id =
     (case run_from self START
             (apply_writes (thread_state cp thread_id) [W_messages input], [], []) of
        Inl e \<Rightarrow> Inl e
      | Inr (st, calls, path) \<Rightarrow> Inr ((st, calls, path), cp(thread_id \<mapsto> st)))"

record 'row ask_result =
  answer :: string
  sql :: string
  results :: "'row list"

definition ask ::
  "'row PhoneRAGGraph \<Rightarrow> 'row checkpointer \<Rightarrow> string \<Rightarrow> string \<Rightarrow>
   exn + ('row ask_result \<times> 'row checkpointer)" where
  "ask self cp q thread_id =
     (case invoke self cp [HumanMessage q] thread_id of
        Inl e \<Rightarrow> Inl e
      | Inr ((result, calls, path), cp') \<Rightarrow>
          Inr (\<lparr>answer = (case final_answer result of None \<Rightarrow> [] | Some a \<Rightarrow> a),
                sql = (case sql_query result of None \<Rightarrow> [] | Some s \<Rightarrow> s),
                results = (case db_results result of None \<Rightarrow> [] | Some rs \<Rightarrow> rs)\<rparr>, cp'))"

text \<open>\<open>InMemorySaver()\<close>: no thread has a checkpoint yet.\<close>

definition new_checkpointer :: "'row checkpointer" where
  "new_checkpointer = Map.empty"

definition get_conversation_history :: "'row checkpointer \<Rightarrow> string \<Rightarrow> message list" where
  "get_conversation_history cp thread_id =
     (case cp thread_id of None \<Rightarrow> [] | Some st \<Rightarrow> messages st)"

text \<open>
  A sequence of calls to \<open>ask\<close>, each with the agent as it is at that moment (the store and
  the model may answer differently from call to call), its question and its thread id.  An
  exception that leaves one call ends the sequence.
\<close>

fun ask_all ::
  "'row checkpointer \<Rightarrow> ('row PhoneRAGGraph \<times> string \<times> string) list \<Rightarrow>
   exn + ('row ask_result list \<times> 'row checkpointer)" where
  "ask_all cp [] = Inr ([], cp)"
| "ask_all cp ((self, q, thread_id) # rest) =
     (case ask self cp q thread_id of
        Inl e \<Rightarrow> Inl e
      | Inr (r, cp') \<Rightarrow>
          (case ask_all cp' rest of
             Inl e \<Rightarrow> Inl e
           | Inr (rs, cp'') \<Rightarrow> Inr (r # rs, cp'')))"

section \<open>Stub collaborators for concrete runs\<close>

text \<open>
  A row is a dictionary from column names to values, here an association list.  The stub
  agent answers the SQL-synthesis call with \<open>sql_reply\<close>, the answer-synthesis call with
  \<open>answer_reply\<close> and every query to the store with \<open>store_reply\<close>.
\<close>

type_synonym row = "(string \<times> string) list"

definition stub_agent ::
  "string + string \<Rightarrow> string + row list \<Rightarrow> string + string \<Rightarrow> row PhoneRAGGraph" where
  "stub_agent sql_reply store_reply answer_reply =
     \<lparr>db_execute_query = (\<lambda>q. store_reply),
      schema = ''Table: samsung_phones'',
      examples = [(''Which phones have 5G?'',
                   ''SELECT name FROM samsung_phones WHERE network_5g_bands IS NOT NULL LIMIT 5'')],
      llm_invoke = (\<lambda>msgs.
         if take 1 msgs = [SystemMessage ''You are a SQL expert. Generate valid PostgreSQL queries.'']
         then sql_reply else answer_reply),
      json_dumps = (\<lambda>rs. concat (map (concat \<circ> map (\<lambda>(k, v). k @ '': '' @ v @ ''\<newline>'')) rs)),
      repr_rest = (\<lambda>m. '' additional_kwargs={} response_metadata={}'')\<rparr>"

section \<open>Properties of the sanitizer\<close>

lemma has_fence_iff: "has_fence s \<longleftrightarrow> (\<exists>u v. s = u @ ''```'' @ v)"
proof (induction s)
  case Nil
  show ?case by simp
next
  case (Cons c cs)
  show ?case
  proof
    assume "has_fence (c # cs)"
    then consider "take 3 (c # cs) = ''```''" | "has_fence cs" by auto
    then show "\<exists>u v. c # cs = u @ ''```'' @ v"
    proof cases
      case 1
      then have "c # cs = [] @ ''```'' @ drop 3 (c # cs)"
        by (metis append_Nil append_take_drop_id)
      then show ?thesis by blast
    next
      case 2
      with Cons obtain u v where "cs = u @ ''```'' @ v" by blast
      then have "c # cs = (c # u) @ ''```'' @ v" by simp
      then show ?thesis by blast
    qed
  next
    assume "\<exists>u v. c # cs = u @ ''```'' @ v"
    then obtain u v where uv: "c # cs = u @ ''```'' @ v" by blast
    show "has_fence (c # cs)"
    proof (cases u)
      case Nil
      with uv show ?thesis by simp
    next
      case (Cons a u')
      with uv have "cs = u' @ ''```'' @ v" by simp
      with Cons.IH show ?thesis by auto
    qed
  qed
qed

lemma re_sub_fences_no_fence: "\<not> has_fence s \<Longrightarrow> re_sub_fences s = s"
  by (induction s) auto

lemma rstrip_with_id: "s = [] \<or> \<not> p (last s) \<Longrightarrow> rstrip_with p s = s"
  by (cases s rule: rev_cases) (auto simp: rstrip_with_def)

lemma strip_id: "s = [] \<or> (\<not> isspace (hd s) \<and> \<not> isspace (last s)) \<Longrightarrow> strip s = s"
  by (cases s) (auto simp: strip_def rstrip_with_id)

section \<open>One traversal of the graph\<close>

text \<open>
  What the traversal does from each node on, and the five shapes a turn that returns can
  have: the synthesized SQL is too short; the store raises; the store answers but the
  thread's state still holds an error; the store answers with no rows; the store answers
  with rows and the model writes the answer.
\<close>

declare run_from.simps [simp del]

lemma run_from_END: "run_from self END c = Inr c"
  by (cases c) (simp add: run_from.simps)

lemma run_from_handle_error:
  "run_from self handle_error (st, calls, path) =
     Inr (st\<lparr>messages := messages st @ [AIMessage (error_answer (recorded_error st))],
             final_answer := Some (error_answer (recorded_error st))\<rparr>,
          calls, path @ [handle_error])"
  by (simp add: run_from.simps [of _ handle_error] handle_error_node_def apply_writes_def
        add_messages_def run_from_END)

lemma run_from_generate_answer:
  "run_from self generate_answer (st, calls, path) =
     (case question st of
        None \<Rightarrow> Inl (KeyError ''question'')
      | Some q \<Rightarrow>
          (case db_results st of
             None \<Rightarrow> Inl (KeyError ''db_results'')
           | Some rs \<Rightarrow>
               if rs = [] then
                 Inr (st\<lparr>messages := messages st @ [AIMessage no_results_answer],
                         final_answer := Some no_results_answer\<rparr>,
                      calls, path @ [generate_answer])
               else
                 (case llm_invoke self (answer_messages self q rs) of
                    Inl e \<Rightarrow> Inl (ModelError e)
                  | Inr response \<Rightarrow>
                      Inr (st\<lparr>messages := messages st @ [AIMessage (strip response)],
                              final_answer := Some (strip response)\<rparr>,
                           calls @ [Llm_invoke (answer_messages self q rs)],
                           path @ [generate_answer]))))"
  by (simp add: run_from.simps [of _ generate_answer] generate_answer_node_def apply_writes_def
        add_messages_def run_from_END split: option.splits sum.splits)

lemma run_from_execute_query:
  "run_from self execute_query (st, calls, path) =
     (case sql_query st of
        None \<Rightarrow> Inl (KeyError ''sql_query'')
      | Some q \<Rightarrow>
          (case db_execute_query self q of
             Inl e \<Rightarrow>
               run_from self handle_error
                 (st\<lparr>error := Some (''Database error: '' @ e)\<rparr>,
                  calls @ [Db_execute_query q], path @ [execute_query])
           | Inr rs \<Rightarrow>
               run_from self
                 (if error st = None \<or> error st = Some [] then generate_answer else handle_error)
                 (st\<lparr>db_results := Some rs\<rparr>,
                  calls @ [Db_execute_query q], path @ [execute_query])))"
  by (simp add: run_from.simps [of _ execute_query] execute_query_node_def apply_writes_def
        check_results_def conditional_edge_def split: option.splits sum.splits)

lemma run_from_generate_sql:
  "run_from self generate_sql (st, calls, path) =
     (case question st of
        None \<Rightarrow> Inl (KeyError ''question'')
      | Some q \<Rightarrow>
          (case llm_invoke self (sql_messages self q) of
             Inl e \<Rightarrow> Inl (ModelError e)
           | Inr response \<Rightarrow>
               run_from self
                 (if length (clean_sql response) > 10 then execute_query else handle_error)
                 (st\<lparr>sql_query := Some (clean_sql response)\<rparr>,
                  calls @ [Llm_invoke (sql_messages self q)], path @ [generate_sql])))"
  by (simp add: run_from.simps [of _ generate_sql] generate_sql_node_def apply_writes_def
        check_sql_valid_def conditional_edge_def split: option.splits sum.splits)

lemma run_from_START:
  "run_from self START (st, calls, path) =
     (if messages st = [] then Inl IndexError
      else run_from self generate_sql
             (st\<lparr>question := Some (question_of self (last (messages st)))\<rparr>,
              calls, path @ [START, extract_question]))"
  by (simp add: run_from.simps [of _ START] run_from.simps [of _ extract_question]
        extract_question_node_def apply_writes_def)

lemma turn_cases [consumes 1, case_names invalid db_error stale_error no_rows answered]:
  fixes self :: "'row PhoneRAGGraph" and st :: "'row RAGState"
  defines "q \<equiv> question_of self (last (messages st))"
  assumes run: "run_from self START (st, [], []) = Inr (st', calls, path)"
  obtains
    (invalid) raw where
      "messages st \<noteq> []"
      "llm_invoke self (sql_messages self q) = Inr raw"
      "length (clean_sql raw) \<le> 10"
      "st' = st\<lparr>messages := messages st @ [AIMessage (error_answer (recorded_error st))],
                 question := Some q, sql_query := Some (clean_sql raw),
                 final_answer := Some (error_answer (recorded_error st))\<rparr>"
      "calls = [Llm_invoke (sql_messages self q)]"
      "path = [START, extract_question, generate_sql, handle_error]"
  | (db_error) raw msg where
      "messages st \<noteq> []"
      "llm_invoke self (sql_messages self q) = Inr raw"
      "length (clean_sql raw) > 10"
      "db_execute_query self (clean_sql raw) = Inl msg"
      "st' = st\<lparr>messages := messages st @ [AIMessage (error_answer (''Database error: '' @ msg))],
                 question := Some q, sql_query := Some (clean_sql raw),
                 final_answer := Some (error_answer (''Database error: '' @ msg)),
                 error := Some (''Database error: '' @ msg)\<rparr>"
      "calls = [Llm_invoke (sql_messages self q), Db_execute_query (clean_sql raw)]"
      "path = [START, extract_question, generate_sql, execute_query, handle_error]"
  | (stale_error) raw rs e where
      "messages st \<noteq> []"
      "llm_invoke self (sql_messages self q) = Inr raw"
      "length (clean_sql raw) > 10"
      "db_execute_query self (clean_sql raw) = Inr rs"
      "error st = Some e" "e \<noteq> []"
      "st' = st\<lparr>messages := messages st @ [AIMessage (error_answer e)],
                 question := Some q, sql_query := Some (clean_sql raw),
                 db_results := Some rs,
                 final_answer := Some (error_answer e)\<rparr>"
      "calls = [Llm_invoke (sql_messages self q), Db_execute_query (clean_sql raw)]"
      "path = [START, extract_question, generate_sql, execute_query, handle_error]"
  | (no_rows) raw where
      "messages st \<noteq> []"
      "llm_invoke self (sql_messages self q) = Inr raw"
      "length (clean_sql raw) > 10"
      "db_execute_query self (clean_sql raw) = Inr []"
      "error st = None \<or> error st = Some []"
      "st' = st\<lparr>messages := messages st @ [AIMessage no_results_answer],
                 question := Some q, sql_query := Some (clean_sql raw),
                 db_results := Some [],
                 final_answer := Some no_results_answer\<rparr>"
      "calls = [Llm_invoke (sql_messages self q), Db_execute_query (clean_sql raw)]"
      "path = [START, extract_question, generate_sql, execute_query, generate_answer]"
  | (answered) raw rs reply where
      "messages st \<noteq> []"
      "llm_invoke self (sql_messages self q) = Inr raw"
      "length (clean_sql raw) > 10"
      "db_execute_query self (clean_sql raw) = Inr rs" "rs \<noteq> []"
      "error st = None \<or> error st = Some []"
      "llm_invoke self (answer_messages self q rs) = Inr reply"
      "st' = st\<lparr>messages := messages st @ [AIMessage (strip reply)],
                 question := Some q, sql_query := Some (clean_sql raw),
                 db_results := Some rs,
                 final_answer := Some (strip reply)\<rparr>"
      "calls = [Llm_invoke (sql_messages self q), Db_execute_query (clean_sql raw),
                Llm_invoke (answer_messages self q rs)]"
      "path = [START, extract_question, generate_sql, execute_query, generate_answer]"
proof -
  from run have ne: "messages st \<noteq> []"
    by (simp add: run_from_START split: if_splits)
  with run obtain raw where raw: "llm_invoke self (sql_messages self q) = Inr raw"
    by (auto simp: run_from_START run_from_generate_sql q_def split: sum.splits)
  show thesis
  proof (cases "length (clean_sql raw) > 10")
    case False
    with run ne raw show thesis
      by (intro invalid [of raw])
         (auto simp: run_from_START run_from_generate_sql run_from_handle_error q_def
               recorded_error_def)
  next
    case valid: True
    show thesis
    proof (cases "db_execute_query self (clean_sql raw)")
      case (Inl msg)
      with run ne raw valid show thesis
        by (intro db_error [of raw msg])
           (auto simp: run_from_START run_from_generate_sql run_from_execute_query
                 run_from_handle_error q_def recorded_error_def)
    next
      case (Inr rs)
      show thesis
      proof (cases "error st = None \<or> error st = Some []")
        case False
        then obtain e where e: "error st = Some e" "e \<noteq> []" by auto
        with run ne raw valid Inr show thesis
          by (intro stale_error [of raw rs e])
             (auto simp: run_from_START run_from_generate_sql run_from_execute_query
                   run_from_handle_error q_def recorded_error_def)
      next
        case fresh: True
        show thesis
        proof (cases "rs = []")
          case True
          with run ne raw valid Inr fresh show thesis
            by (intro no_rows [of raw])
               (auto simp: run_from_START run_from_generate_sql run_from_execute_query
                     run_from_generate_answer q_def)
        next
          case False
          with run ne raw valid Inr fresh
          obtain reply where reply: "llm_invoke self (answer_messages self q rs) = Inr reply"
            by (auto simp: run_from_START run_from_generate_sql run_from_execute_query
                  run_from_generate_answer q_def split: sum.splits)
          with run ne raw valid Inr fresh False show thesis
            by (intro answered [of raw rs reply])
               (auto simp: run_from_START run_from_generate_sql run_from_execute_query
                     run_from_generate_answer q_def)
        qed
      qed
    qed
  qed
qed

lemma invoke_run:
  "invoke self cp input thread_id =
     (case run_from self START
        ((thread_state cp thread_id)\<lparr>messages := messages (thread_state cp thread_id) @ input\<rparr>,
         [], []) of
        Inl e \<Rightarrow> Inl e
      | Inr (st, calls, path) \<Rightarrow> Inr ((st, calls, path), cp(thread_id \<mapsto> st)))"
  by (simp add: invoke_def apply_writes_def add_messages_def)

lemma invoke_InrD:
  assumes "invoke self cp input thread_id = Inr ((st', calls, path), cp')"
  shows "run_from self START
           ((thread_state cp thread_id)\<lparr>messages := messages (thread_state cp thread_id) @ input\<rparr>,
            [], []) = Inr (st', calls, path)"
    and "cp' = cp(thread_id \<mapsto> st')"
  using assms by (auto simp: invoke_run split: sum.splits)

lemma invoke_invalid_sql:
  fixes self :: "'row PhoneRAGGraph"
  assumes "llm_invoke self (sql_messages self q) = Inr raw" and "length (clean_sql raw) \<le> 10"
  shows "\<exists>st'. invoke self cp [HumanMessage q] thread_id =
           Inr ((st', [Llm_invoke (sql_messages self q)],
                 [START, extract_question, generate_sql, handle_error]),
                cp(thread_id \<mapsto> st')) \<and>
           messages st' = messages (thread_state cp thread_id) @
             [HumanMessage q,
              AIMessage (error_answer (recorded_error (thread_state cp thread_id)))] \<and>
           question st' = Some q \<and>
           sql_query st' = Some (clean_sql raw) \<and>
           db_results st' = db_results (thread_state cp thread_id) \<and>
           final_answer st' = Some (error_answer (recorded_error (thread_state cp thread_id))) \<and>
           error st' = error (thread_state cp thread_id)"
  using assms
  by (simp add: invoke_run run_from_START run_from_generate_sql run_from_handle_error
        question_of_def recorded_error_def)

lemma invoke_store_failure:
  fixes self :: "'row PhoneRAGGraph"
  assumes "llm_invoke self (sql_messages self q) = Inr raw" and "length (clean_sql raw) > 10"
    and "db_execute_query self (clean_sql raw) = Inl msg"
  shows "\<exists>st'. invoke self cp [HumanMessage q] thread_id =
           Inr ((st', [Llm_invoke (sql_messages self q), Db_execute_query (clean_sql raw)],
                 [START, extract_question, generate_sql, execute_query, handle_error]),
                cp(thread_id \<mapsto> st')) \<and>
           messages st' = messages (thread_state cp thread_id) @
             [HumanMessage q, AIMessage (error_answer (''Database error: '' @ msg))] \<and>
           question st' = Some q \<and>
           sql_query st' = Some (clean_sql raw) \<and>
           db_results st' = db_results (thread_state cp thread_id) \<and>
           final_answer st' = Some (error_answer (''Database error: '' @ msg)) \<and>
           error st' = Some (''Database error: '' @ msg)"
  using assms
  by (simp add: invoke_run run_from_START run_from_generate_sql run_from_execute_query
        run_from_handle_error question_of_def recorded_error_def)

lemma invoke_answered:
  fixes self :: "'row PhoneRAGGraph"
  assumes "llm_invoke self (sql_messages self q) = Inr raw" and "length (clean_sql raw) > 10"
    and "db_execute_query self (clean_sql raw) = Inr rs" and "rs \<noteq> []"
    and "error (thread_state cp thread_id) = None"
    and "llm_invoke self (answer_messages self q rs) = Inr reply"
  shows "\<exists>st'. invoke self cp [HumanMessage q] thread_id =
           Inr ((st', [Llm_invoke (sql_messages self q), Db_execute_query (clean_sql raw),
                       Llm_invoke (answer_messages self q rs)],
                 [START, extract_question, generate_sql, execute_query, generate_answer]),
                cp(thread_id \<mapsto> st')) \<and>
           messages st' = messages (thread_state cp thread_id) @
             [HumanMessage q, AIMessage (strip reply)] \<and>
           question st' = Some q \<and>
           sql_query st' = Some (clean_sql raw) \<and>
           db_results st' = Some rs \<and>
           final_answer st' = Some (strip reply) \<and>
           error st' = None"
  using assms
  by (simp add: invoke_run run_from_START run_from_generate_sql run_from_execute_query
        run_from_generate_answer question_of_def)

lemma invoke_no_rows:
  fixes self :: "'row PhoneRAGGraph"
  assumes "llm_invoke self (sql_messages self q) = Inr raw" and "length (clean_sql raw) > 10"
    and "db_execute_query self (clean_sql raw) = Inr []"
    and "error (thread_state cp thread_id) = None"
  shows "\<exists>st'. invoke self cp [HumanMessage q] thread_id =
           Inr ((st', [Llm_invoke (sql_messages self q), Db_execute_query (clean_sql raw)],
                 [START, extract_question, generate_sql, execute_query, generate_answer]),
                cp(thread_id \<mapsto> st')) \<and>
           messages st' = messages (thread_state cp thread_id) @
             [HumanMessage q, AIMessage no_results_answer] \<and>
           question st' = Some q \<and>
           sql_query st' = Some (clean_sql raw) \<and>
           db_results st' = Some [] \<and>
           final_answer st' = Some no_results_answer \<and>
           error st' = None"
  using assms
  by (simp add: invoke_run run_from_START run_from_generate_sql run_from_execute_query
        run_from_generate_answer question_of_def)

lemma invoke_stale_error:
  fixes self :: "'row PhoneRAGGraph"
  assumes "llm_invoke self (sql_messages self q) = Inr raw" and "length (clean_sql raw) > 10"
    and "db_execute_query self (clean_sql raw) = Inr rs"
    and "error (thread_state cp thread_id) = Some e" and "e \<noteq> []"
  shows "\<exists>st'. invoke self cp [HumanMessage q] thread_id =
           Inr ((st', [Llm_invoke (sql_messages self q), Db_execute_query (clean_sql raw)],
                 [START, extract_question, generate_sql, execute_query, handle_error]),
                cp(thread_id \<mapsto> st')) \<and>
           messages st' = messages (thread_state cp thread_id) @
             [HumanMessage q, AIMessage (error_answer e)] \<and>
           question st' = Some q \<and>
           sql_query st' = Some (clean_sql raw) \<and>
           db_results st' = Some rs \<and>
           final_answer st' = Some (error_answer e) \<and>
           error st' = Some e"
  using assms
  by (simp add: invoke_run run_from_START run_from_generate_sql run_from_execute_query
        run_from_handle_error question_of_def recorded_error_def)

lemma thread_state_new [simp]: "thread_state new_checkpointer thread_id = empty_state"
  by (simp add: thread_state_def new_checkpointer_def)

lemma thread_state_upd [simp]:
  "thread_state (cp(t \<mapsto> st)) thread_id = (if thread_id = t then st else thread_state cp thread_id)"
  by (simp add: thread_state_def)

lemma stub_sql_reply [simp]:
  "llm_invoke (stub_agent sql_reply store_reply answer_reply)
     (sql_messages (stub_agent sql_reply store_reply answer_reply) q) = sql_reply"
  by (simp add: stub_agent_def sql_messages_def)

lemma stub_answer_reply [simp]:
  "llm_invoke (stub_agent sql_reply store_reply answer_reply)
     (answer_messages (stub_agent sql_reply store_reply answer_reply) q rs) = answer_reply"
  by (simp add: stub_agent_def answer_messages_def)

lemma stub_store_reply [simp]:
  "db_execute_query (stub_agent sql_reply store_reply answer_reply) s = store_reply"
  by (simp add: stub_agent_def)

lemma clean_sql_no: "clean_sql ''no'' = ''no''"
  by (simp add: clean_sql_def strip_def rstrip_chars_def rstrip_with_def isspace_def)

lemma clean_sql_select:
  "clean_sql ''SELECT name FROM samsung_phones LIMIT 5'' = ''SELECT name FROM samsung_phones LIMIT 5''"
  by (simp add: clean_sql_def strip_def rstrip_chars_def rstrip_with_def isspace_def)

lemma strip_empty_iff: "strip s = [] \<longleftrightarrow> (\<forall>c \<in> set s. isspace c)"
proof
  assume "strip s = []"
  then have all: "\<forall>c \<in> set (dropWhile isspace s). isspace c"
    by (simp add: strip_def rstrip_with_def)
  have "dropWhile isspace s = []"
  proof (rule ccontr)
    assume ne: "dropWhile isspace s \<noteq> []"
    then have "\<not> isspace (hd (dropWhile isspace s))" by (rule hd_dropWhile)
    moreover from ne have "hd (dropWhile isspace s) \<in> set (dropWhile isspace s)" by simp
    ultimately show False using all by blast
  qed
  then show "\<forall>c \<in> set s. isspace c"
    by simp
next
  assume "\<forall>c \<in> set s. isspace c"
  then have d: "dropWhile isspace s = []" by (simp only: dropWhile_eq_Nil_conv)
  show "strip s = []" by (simp add: strip_def rstrip_with_def d)
qed

lemma error_answer_nonempty: "error_answer e \<noteq> []"
  by (simp add: error_answer_def)

lemma no_results_answer_nonempty: "no_results_answer \<noteq> []"
  by (simp add: no_results_answer_def)

lemmas turn_eval =
  ask_def invoke_run run_from_START run_from_generate_sql run_from_execute_query
  run_from_generate_answer run_from_handle_error question_of_def recorded_error_def
  empty_state_def

lemma history_thread_state:
  "get_conversation_history cp t = messages (thread_state cp t)"
  by (simp add: get_conversation_history_def thread_state_def empty_state_def split: option.splits)

lemma ask_history:
  fixes self :: "'row PhoneRAGGraph"
  assumes "ask self cp q thread_id = Inr (r, cp')"
  shows "get_conversation_history cp' t =
           get_conversation_history cp t @
           (if t = thread_id then [HumanMessage q, AIMessage (answer r)] else [])"
proof -
  let ?st = "thread_state cp thread_id"
  from assms obtain st' calls path where
    inv: "invoke self cp [HumanMessage q] thread_id = Inr ((st', calls, path), cp')"
    and r: "answer r = (case final_answer st' of None \<Rightarrow> [] | Some a \<Rightarrow> a)"
    by (auto simp: ask_def split: sum.splits)
  from inv have run: "run_from self START (?st\<lparr>messages := messages ?st @ [HumanMessage q]\<rparr>, [], [])
      = Inr (st', calls, path)"
    and cp': "cp' = cp(thread_id \<mapsto> st')"
    by (auto dest: invoke_InrD)
  from run have "\<exists>a. final_answer st' = Some a \<and>
      messages st' = messages ?st @ [HumanMessage q, AIMessage a]"
    by (cases rule: turn_cases) simp_all
  with r have "messages st' = messages ?st @ [HumanMessage q, AIMessage (answer r)]"
    by auto
  with cp' show ?thesis
    by (simp add: history_thread_state)
qed

lemma ask_all_history:
  fixes cp :: "'row checkpointer"
  assumes "ask_all cp asks = Inr (rs, cp')"
  shows "length rs = length asks \<and>
         get_conversation_history cp' t =
           get_conversation_history cp t @
           concat (map (\<lambda>((self, q, thread_id), r). [HumanMessage q, AIMessage (answer r)])
                     (filter (\<lambda>((self, q, thread_id), r). thread_id = t) (zip asks rs)))"
  using assms
proof (induction asks arbitrary: cp rs)
  case Nil
  then show ?case by simp
next
  case (Cons a asks)
  obtain self q thread_id where a: "a = (self, q, thread_id)" by (cases a)
  from Cons.prems a obtain r cp1 rs1 where
    one: "ask self cp q thread_id = Inr (r, cp1)"
    and rest: "ask_all cp1 asks = Inr (rs1, cp')"
    and rs: "rs = r # rs1"
    by (auto split: sum.splits)
  from Cons.IH [OF rest] ask_history [OF one, of t] a rs show ?case
    by simp
qed

lemma re_sub_fences_keep: "c \<noteq> CHR 0x60 \<Longrightarrow> re_sub_fences (c # cs) = c # re_sub_fences cs"
  by simp

lemma re_sub_fences_no_triple:
  assumes "take 3 (c # cs) \<noteq> ''```''"
  shows "take 3 (c # re_sub_fences cs) \<noteq> ''```''"
proof (cases "c = CHR 0x60")
  case False
  then show ?thesis by simp
next
  case c: True
  show ?thesis
  proof (cases cs)
    case Nil
    then show ?thesis by simp
  next
    case (Cons d ds)
    show ?thesis
    proof (cases "d = CHR 0x60")
      case False
      with Cons show ?thesis by simp
    next
      case d: True
      show ?thesis
      proof (cases ds)
        case Nil
        with Cons d show ?thesis by simp
      next
        case ds: (Cons e es)
        with assms c d Cons have "e \<noteq> CHR 0x60" by auto
        with Cons d ds show ?thesis by simp
      qed
    qed
  qed
qed

lemma re_sub_fences_removes_fences: "\<not> has_fence (re_sub_fences s)"
proof (induction s rule: re_sub_fences.induct)
  case 1
  show ?case by simp
next
  case (2 c cs)
  show ?case
  proof (cases "take 3 (c # cs) = ''```''")
    case True
    with 2 show ?thesis by (simp del: take_Cons_numeral)
  next
    case False
    with 2 have "\<not> has_fence (re_sub_fences cs)" by simp
    moreover from False have "take 3 (c # re_sub_fences cs) \<noteq> ''```''"
      by (rule re_sub_fences_no_triple)
    moreover from False have "re_sub_fences (c # cs) = c # re_sub_fences cs"
      by (simp only: re_sub_fences.simps if_False)
    ultimately show ?thesis by simp
  qed
qed

lemma has_fence_infix: "has_fence r \<Longrightarrow> has_fence (u @ r @ v)"
proof -
  assume "has_fence r"
  then obtain a b where "r = a @ ''```'' @ b" by (auto simp: has_fence_iff)
  then have "u @ r @ v = (u @ a) @ ''```'' @ (b @ v)" by simp
  then show ?thesis unfolding has_fence_iff by blast
qed

lemma rstrip_with_split: "s = rstrip_with p s @ rev (takeWhile p (rev s))"
proof -
  have "rev s = takeWhile p (rev s) @ dropWhile p (rev s)" by simp
  then have "rev (rev s) = rev (takeWhile p (rev s) @ dropWhile p (rev s))" by simp
  then show ?thesis by (simp add: rstrip_with_def del: takeWhile_dropWhile_id)
qed

lemma rstrip_with_last: "rstrip_with p s \<noteq> [] \<Longrightarrow> \<not> p (last (rstrip_with p s))"
  by (simp add: rstrip_with_def last_rev hd_dropWhile)

lemma rstrip_with_hd: "rstrip_with p s \<noteq> [] \<Longrightarrow> hd (rstrip_with p s) = hd s"
  by (metis hd_append2 rstrip_with_split)

lemma semicolons_replicate:
  "takeWhile (\<lambda>c. c \<in> set '';'') s = replicate (length (takeWhile (\<lambda>c. c \<in> set '';'') s)) (CHR '';'')"
  by (induction s) auto

lemma clean_sql_split:
  "\<exists>ws1 ws2 n. re_sub_fences s = ws1 @ clean_sql s @ replicate n (CHR '';'') @ ws2 \<and>
     (\<forall>c \<in> set ws1 \<union> set ws2. isspace c)"
proof -
  let ?x = "re_sub_fences s"
  let ?y = "dropWhile isspace ?x"
  let ?z = "rstrip_with isspace ?y"
  let ?semi = "\<lambda>c. c \<in> set '';''"
  let ?n = "length (takeWhile ?semi (rev ?z))"
  have x: "?x = takeWhile isspace ?x @ ?y" by simp
  have y: "?y = ?z @ rev (takeWhile isspace (rev ?y))" by (rule rstrip_with_split)
  have "?z = rstrip_with ?semi ?z @ rev (takeWhile ?semi (rev ?z))" by (rule rstrip_with_split)
  also have "takeWhile ?semi (rev ?z) = replicate ?n (CHR '';'')" by (rule semicolons_replicate)
  finally have z: "?z = clean_sql s @ replicate ?n (CHR '';'')"
    by (simp add: clean_sql_def strip_def rstrip_chars_def)
  have "?x = takeWhile isspace ?x @ clean_sql s @ replicate ?n (CHR '';'') @
      rev (takeWhile isspace (rev ?y))"
    using x y z by (metis append.assoc)
  moreover have "\<forall>c \<in> set (takeWhile isspace ?x) \<union> set (rev (takeWhile isspace (rev ?y))). isspace c"
    by (auto dest: set_takeWhileD)
  ultimately show ?thesis by blast
qed

lemma clean_sql_ends:
  "clean_sql s \<noteq> [] \<Longrightarrow> \<not> isspace (hd (clean_sql s)) \<and> last (clean_sql s) \<noteq> CHR '';''"
proof -
  assume ne: "clean_sql s \<noteq> []"
  let ?y = "dropWhile isspace (re_sub_fences s)"
  let ?z = "rstrip_with isspace ?y"
  have nil: "rstrip_with p [] = []" for p by (simp add: rstrip_with_def)
  from ne have z: "?z \<noteq> []"
    using nil by (auto simp: clean_sql_def strip_def rstrip_chars_def)
  have y: "?y \<noteq> []"
  proof
    assume "?y = []"
    then have "?z = []" by (simp only: nil)
    with z show False by blast
  qed
  from ne have "hd (clean_sql s) = hd ?z"
    unfolding clean_sql_def strip_def rstrip_chars_def by (rule rstrip_with_hd)
  also from z have "\<dots> = hd ?y" by (rule rstrip_with_hd)
  finally have "\<not> isspace (hd (clean_sql s))" using y by (simp add: hd_dropWhile)
  moreover from ne have "last (clean_sql s) \<noteq> CHR '';''"
    using rstrip_with_last [of "\<lambda>c. c \<in> set '';''" "strip (re_sub_fences s)"]
    by (simp add: clean_sql_def rstrip_chars_def)
  ultimately show ?thesis by blast
qed

text \<open>
  A turn in which the store raises on the synthesized SQL returns: it went from
  \<open>execute_query\<close> to \<open>handle_error\<close>, the error recorded is \<open>Database error: \<close>
  followed by the exception's text, the final answer is the error template around it, and
  the rows are those the thread's state held before the turn, none on a thread that has no
  checkpoint yet.
\<close>

lemma store_failure_turn:
  fixes self :: "'row PhoneRAGGraph"
  shows "llm_invoke self (sql_messages self q) = Inr raw \<and> length (clean_sql raw) > 10 \<and>
     db_execute_query self (clean_sql raw) = Inl msg \<Longrightarrow>
     \<exists>st'. invoke self cp [HumanMessage q] thread_id =
             Inr ((st', [Llm_invoke (sql_messages self q), Db_execute_query (clean_sql raw)],
                   [START, extract_question, generate_sql, execute_query, handle_error]),
                  cp(thread_id \<mapsto> st')) \<and>
           error st' = Some (''Database error: '' @ msg) \<and>
           final_answer st' =
             Some (''I encountered an issue processing your question: Database error: '' @ msg @
                   ''\<newline>\<newline>Please try rephrasing your question or ask something else about Samsung phones.'') \<and>
           db_results st' = db_results (thread_state cp thread_id) \<and>
           ask self cp q thread_id =
             Inr (\<lparr>answer = ''I encountered an issue processing your question: Database error: '' @ msg @
                     ''\<newline>\<newline>Please try rephrasing your question or ask something else about Samsung phones.'',
                   sql = clean_sql raw,
                   results = (if cp thread_id = None then []
                              else case db_results (thread_state cp thread_id) of
                                     None \<Rightarrow> [] | Some rs \<Rightarrow> rs)\<rparr>,
                  cp(thread_id \<mapsto> st'))"
proof -
  assume a: "llm_invoke self (sql_messages self q) = Inr raw \<and> length (clean_sql raw) > 10 \<and>
     db_execute_query self (clean_sql raw) = Inl msg"
  then obtain st' where
    run: "invoke self cp [HumanMessage q] thread_id =
           Inr ((st', [Llm_invoke (sql_messages self q), Db_execute_query (clean_sql raw)],
                 [START, extract_question, generate_sql, execute_query, handle_error]),
                cp(thread_id \<mapsto> st'))"
    and st': "sql_query st' = Some (clean_sql raw)"
      "db_results st' = db_results (thread_state cp thread_id)"
      "final_answer st' = Some (error_answer (''Database error: '' @ msg))"
      "error st' = Some (''Database error: '' @ msg)"
    using invoke_store_failure [of self q raw msg cp thread_id] by blast
  have "cp thread_id = None \<Longrightarrow> db_results (thread_state cp thread_id) = None"
    by (simp add: thread_state_def empty_state_def)
  with run st' show ?thesis
    by (intro exI [of _ st']) (auto simp: ask_def error_answer_def)
qed

text \<open>
  The \<open>handle_error\<close> step changes only the final answer and appends one assistant
  message: question, SQL query, rows and error are left as they were, and no call is made.
  On a turn that ends in \<open>handle_error\<close>, \<open>ask\<close> returns the error answer together with
  the SQL synthesized in this turn and the rows the state holds, none on a thread that has
  no checkpoint yet.
\<close>

lemma handle_error_turn_frame:
  fixes self :: "'row PhoneRAGGraph"
  shows
    "(run_from self handle_error (st, calls, path) = Inr (st1, calls1, path1) \<longrightarrow>
        question st1 = question st \<and> sql_query st1 = sql_query st \<and>
        db_results st1 = db_results st \<and> error st1 = error st \<and>
        (\<exists>a. final_answer st1 = Some a \<and> messages st1 = messages st @ [AIMessage a]) \<and>
        calls1 = calls) \<and>
     (invoke self cp [HumanMessage q] thread_id = Inr ((st', calls', path'), cp') \<and>
      last path' = handle_error \<longrightarrow>
        (\<exists>raw. llm_invoke self (sql_messages self q) = Inr raw \<and>
           ask self cp q thread_id =
             Inr (\<lparr>answer = error_answer (recorded_error st'),
                   sql = clean_sql raw,
                   results = (if cp thread_id = None then []
                              else case db_results st' of None \<Rightarrow> [] | Some rs \<Rightarrow> rs)\<rparr>,
                  cp')))"
proof -
  have step: "question st1 = question st \<and> sql_query st1 = sql_query st \<and>
        db_results st1 = db_results st \<and> error st1 = error st \<and>
        (\<exists>a. final_answer st1 = Some a \<and> messages st1 = messages st @ [AIMessage a]) \<and>
        calls1 = calls"
    if "run_from self handle_error (st, calls, path) = Inr (st1, calls1, path1)"
    using that by (auto simp: run_from_handle_error)
  have turn: "\<exists>raw. llm_invoke self (sql_messages self q) = Inr raw \<and>
           ask self cp q thread_id =
             Inr (\<lparr>answer = error_answer (recorded_error st'),
                   sql = clean_sql raw,
                   results = (if cp thread_id = None then []
                              else case db_results st' of None \<Rightarrow> [] | Some rs \<Rightarrow> rs)\<rparr>,
                  cp')"
    if a: "invoke self cp [HumanMessage q] thread_id = Inr ((st', calls', path'), cp') \<and>
      last path' = handle_error"
  proof -
    let ?st = "thread_state cp thread_id"
    from a have run: "run_from self START (?st\<lparr>messages := messages ?st @ [HumanMessage q]\<rparr>, [], [])
        = Inr (st', calls', path')"
      and last: "last path' = handle_error"
      by (auto dest: invoke_InrD(1))
    have fresh: "cp thread_id = None \<Longrightarrow> db_results ?st = None \<and> error ?st = None"
      by (simp add: thread_state_def empty_state_def)
    from run last
    have "\<exists>raw. llm_invoke self (sql_messages self q) = Inr raw \<and>
            sql_query st' = Some (clean_sql raw) \<and>
            final_answer st' = Some (error_answer (recorded_error st')) \<and>
            (cp thread_id = None \<longrightarrow> db_results st' = None)"
      using fresh
      by (cases rule: turn_cases) (auto simp: recorded_error_def question_of_def)
    with a show ?thesis
      by (auto simp: ask_def)
  qed
  from step turn show ?thesis by blast
qed

lemma take3_append_two:
  "take 3 ((c # t) @ ''``'' @ r) = take 3 ((c # t) @ ''``'')"
  by (cases t; cases "tl t") auto

lemma re_sub_fences_skip:
  "\<not> has_fence (t @ ''``'') \<Longrightarrow> re_sub_fences (t @ ''```'' @ r) = t @ re_sub_fences (''```'' @ r)"
proof (induction t)
  case Nil
  show ?case by simp
next
  case (Cons c t)
  from Cons.prems have head: "take 3 ((c # t) @ ''``'') \<noteq> ''```''"
    and rest: "\<not> has_fence (t @ ''``'')"
    by (auto simp del: take_Cons_numeral)
  have "take 3 (c # (t @ ''```'' @ r)) = take 3 ((c # t) @ ''``'')"
    using take3_append_two [of c t "CHR 0x60 # r"] by simp
  with head have "take 3 (c # (t @ ''```'' @ r)) \<noteq> ''```''" by simp
  then have "re_sub_fences (c # (t @ ''```'' @ r)) = c # re_sub_fences (t @ ''```'' @ r)"
    by (simp only: re_sub_fences.simps if_False)
  with Cons.IH [OF rest] show ?case by simp
qed

lemma first_fence:
  "has_fence v \<Longrightarrow> \<exists>t rest. v = t @ ''```'' @ rest \<and> \<not> has_fence (t @ ''``'')"
proof (induction v)
  case Nil
  then show ?case by simp
next
  case (Cons c cs)
  show ?case
  proof (cases "take 3 (c # cs) = ''```''")
    case True
    then have "c # cs = [] @ ''```'' @ drop 3 (c # cs)"
      by (metis append_Nil append_take_drop_id)
    moreover have "\<not> has_fence ([] @ ''``'')" by simp
    ultimately show ?thesis by blast
  next
    case False
    with Cons.prems have "has_fence cs" by (auto simp del: take_Cons_numeral)
    with Cons.IH obtain t rest where cs: "cs = t @ ''```'' @ rest"
      and t: "\<not> has_fence (t @ ''``'')" by blast
    have "take 3 ((c # t) @ ''``'') = take 3 (c # cs)"
      using take3_append_two [of c t "CHR 0x60 # rest"] cs by simp
    with False t have "\<not> has_fence ((c # t) @ ''``'')"
      by (simp del: take_Cons_numeral)
    moreover from cs have "c # cs = (c # t) @ ''```'' @ rest" by simp
    ultimately show ?thesis by blast
  qed
qed

lemma strip_ends:
  "strip x \<noteq> [] \<Longrightarrow> \<not> isspace (hd (strip x)) \<and> \<not> isspace (last (strip x))"
proof -
  assume ne: "strip x \<noteq> []"
  have nil: "rstrip_with p [] = []" for p by (simp add: rstrip_with_def)
  have y: "dropWhile isspace x \<noteq> []"
  proof
    assume "dropWhile isspace x = []"
    then have "strip x = []" by (simp only: strip_def nil)
    with ne show False by blast
  qed
  from ne have "hd (strip x) = hd (dropWhile isspace x)"
    unfolding strip_def by (rule rstrip_with_hd)
  with y have "\<not> isspace (hd (strip x))" by (simp add: hd_dropWhile)
  moreover from ne have "\<not> isspace (last (strip x))"
    unfolding strip_def by (rule rstrip_with_last)
  ultimately show ?thesis by blast
qed

lemma strip_unique:
  assumes ws: "\<forall>c \<in> set ws1 \<union> set ws2. isspace c"
    and mid: "mid = [] \<or> (\<not> isspace (hd mid) \<and> \<not> isspace (last mid))"
  shows "strip (ws1 @ mid @ ws2) = mid"
proof -
  have d1: "dropWhile isspace (ws1 @ mid @ ws2) = dropWhile isspace (mid @ ws2)"
    by (rule dropWhile_append2) (use ws in auto)
  show ?thesis
  proof (cases "mid = []")
    case True
    with ws have e: "dropWhile isspace (ws1 @ mid @ ws2) = []" by simp
    show ?thesis unfolding strip_def e by (simp add: rstrip_with_def True)
  next
    case False
    with mid have h: "\<not> isspace (hd mid)" and l: "\<not> isspace (last mid)" by blast+
    from False h have "dropWhile isspace (mid @ ws2) = mid @ ws2" by (cases mid) auto
    with d1 have "strip (ws1 @ mid @ ws2) = rev (dropWhile isspace (rev ws2 @ rev mid))"
      by (simp add: strip_def rstrip_with_def)
    also have "dropWhile isspace (rev ws2 @ rev mid) = dropWhile isspace (rev mid)"
      by (rule dropWhile_append2) (use ws in auto)
    also from False l have "dropWhile isspace (rev mid) = rev mid"
      by (cases mid rule: rev_cases) auto
    finally show ?thesis by simp
  qed
qed

lemma rstrip_semicolons_unique:
  assumes "r = [] \<or> last r \<noteq> CHR '';''"
  shows "rstrip_chars '';'' (r @ replicate n (CHR '';'')) = r"
proof -
  have "dropWhile (\<lambda>c. c \<in> set '';'') (replicate n (CHR '';'') @ rev r) =
      dropWhile (\<lambda>c. c \<in> set '';'') (rev r)"
    by (induction n) auto
  also from assms have "\<dots> = rev r" by (cases r rule: rev_cases) auto
  finally show ?thesis by (simp add: rstrip_chars_def rstrip_with_def)
qed

lemma clean_sql_decomposition:
  "\<exists>ws1 ws2 n. re_sub_fences s = ws1 @ clean_sql s @ replicate n (CHR '';'') @ ws2 \<and>
     (\<forall>c \<in> set ws1 \<union> set ws2. isspace c) \<and>
     (clean_sql s @ replicate n (CHR '';'') = [] \<or>
      (\<not> isspace (hd (clean_sql s @ replicate n (CHR '';''))) \<and>
       \<not> isspace (last (clean_sql s @ replicate n (CHR '';''))))) \<and>
     (clean_sql s = [] \<or> last (clean_sql s) \<noteq> CHR '';'')"
proof -
  let ?x = "re_sub_fences s"
  let ?y = "dropWhile isspace ?x"
  let ?semi = "\<lambda>c. c \<in> set '';''"
  have x: "?x = takeWhile isspace ?x @ ?y" by simp
  have y: "?y = strip ?x @ rev (takeWhile isspace (rev ?y))"
    unfolding strip_def by (rule rstrip_with_split)
  have "strip ?x = rstrip_with ?semi (strip ?x) @ rev (takeWhile ?semi (rev (strip ?x)))"
    by (rule rstrip_with_split)
  also have "takeWhile ?semi (rev (strip ?x)) =
      replicate (length (takeWhile ?semi (rev (strip ?x)))) (CHR '';'')"
    by (rule semicolons_replicate)
  finally have "\<exists>n. strip ?x = clean_sql s @ replicate n (CHR '';'')"
    by (auto simp: clean_sql_def rstrip_chars_def)
  then obtain n where z: "strip ?x = clean_sql s @ replicate n (CHR '';'')" by blast
  have dec: "?x = takeWhile isspace ?x @ clean_sql s @ replicate n (CHR '';'') @
      rev (takeWhile isspace (rev ?y))"
    using x y z by (metis append.assoc)
  have ws: "\<forall>c \<in> set (takeWhile isspace ?x) \<union> set (rev (takeWhile isspace (rev ?y))). isspace c"
    by (auto dest: set_takeWhileD)
  have ends: "clean_sql s @ replicate n (CHR '';'') = [] \<or>
      (\<not> isspace (hd (clean_sql s @ replicate n (CHR '';''))) \<and>
       \<not> isspace (last (clean_sql s @ replicate n (CHR '';''))))"
    using strip_ends [of ?x] by (simp only: z) blast
  have semi: "clean_sql s = [] \<or> last (clean_sql s) \<noteq> CHR '';''"
    using clean_sql_ends [of s] by blast
  from dec ws ends semi show ?thesis by blast
qed

lemma clean_sql_unique:
  assumes "re_sub_fences s = ws1 @ r @ replicate n (CHR '';'') @ ws2"
    and "\<forall>c \<in> set ws1 \<union> set ws2. isspace c"
    and "r @ replicate n (CHR '';'') = [] \<or>
      (\<not> isspace (hd (r @ replicate n (CHR '';''))) \<and>
       \<not> isspace (last (r @ replicate n (CHR '';''))))"
    and "r = [] \<or> last r \<noteq> CHR '';''"
  shows "clean_sql s = r"
proof -
  from assms(1) have "re_sub_fences s = ws1 @ (r @ replicate n (CHR '';'')) @ ws2" by simp
  then have "strip (re_sub_fences s) = r @ replicate n (CHR '';'')"
    using strip_unique [OF assms(2) assms(3)] by simp
  then show ?thesis
    using rstrip_semicolons_unique [OF assms(4), of n] by (simp add: clean_sql_def)
qed

lemma py_repr_length: "length (py_repr s) \<ge> length s + 2"
proof -
  have "length (concat (map (repr_char q) s)) \<ge> length s" for q
    by (induction s) (auto simp: repr_char_def)
  then show ?thesis by (simp add: py_repr_def Let_def)
qed

lemma message_str_not_content: "message_str self m \<noteq> content m"
proof
  assume "message_str self m = content m"
  then have "length (message_str self m) = length (content m)" by simp
  with py_repr_length [of "content m"] show False by (simp add: message_str_def)
qed

text \<open>
  From \<open>handle_error\<close> the traversal returns at once: it makes no call, writes the error
  template around the error the state holds, or around \<open>Unknown error occurred\<close> when it
  holds none, as final answer, appends that text as one assistant message and goes to
  \<open>END\<close>.  In a turn that visits \<open>handle_error\<close> this node is the last one, it was
  entered from \<open>generate_sql\<close> or from \<open>execute_query\<close>, and \<open>generate_sql\<close> was visited
  once.
\<close>

lemma handle_error_step:
  fixes self :: "'row PhoneRAGGraph"
  shows
    "(\<exists>a. a = ''I encountered an issue processing your question: '' @
              (case error st of None \<Rightarrow> ''Unknown error occurred'' | Some e \<Rightarrow> e) @
              ''\<newline>\<newline>Please try rephrasing your question or ask something else about Samsung phones.'' \<and>
          run_from self handle_error (st, calls, path) =
            Inr (st\<lparr>messages := messages st @ [AIMessage a], final_answer := Some a\<rparr>,
                 calls, path @ [handle_error])) \<and>
     next_node handle_error st = Inr END \<and>
     (invoke self cp input thread_id = Inr ((st', calls', path'), cp') \<and>
      handle_error \<in> set path' \<longrightarrow>
        (path' = [START, extract_question, generate_sql, handle_error] \<or>
         path' = [START, extract_question, generate_sql, execute_query, handle_error]) \<and>
        final_answer st' = Some (error_answer (recorded_error st')) \<and>
        messages st' = messages (thread_state cp thread_id) @ input @
          [AIMessage (error_answer (recorded_error st'))])"
proof (intro conjI impI)
  show "\<exists>a. a = ''I encountered an issue processing your question: '' @
              (case error st of None \<Rightarrow> ''Unknown error occurred'' | Some e \<Rightarrow> e) @
              ''\<newline>\<newline>Please try rephrasing your question or ask something else about Samsung phones.'' \<and>
          run_from self handle_error (st, calls, path) =
            Inr (st\<lparr>messages := messages st @ [AIMessage a], final_answer := Some a\<rparr>,
                 calls, path @ [handle_error])"
    by (simp add: run_from_handle_error error_answer_def recorded_error_def)
next
  show "next_node handle_error st = Inr END" by simp
next
  assume "invoke self cp input thread_id = Inr ((st', calls', path'), cp') \<and>
      handle_error \<in> set path'"
  then have run: "run_from self START
           ((thread_state cp thread_id)\<lparr>messages := messages (thread_state cp thread_id) @ input\<rparr>,
            [], []) = Inr (st', calls', path')"
    and h: "handle_error \<in> set path'"
    by (auto dest: invoke_InrD(1))
  from run h
  have "(path' = [START, extract_question, generate_sql, handle_error] \<or>
         path' = [START, extract_question, generate_sql, execute_query, handle_error]) \<and>
        final_answer st' = Some (error_answer (recorded_error st')) \<and>
        messages st' = messages (thread_state cp thread_id) @ input @
          [AIMessage (error_answer (recorded_error st'))]"
    by (cases rule: turn_cases) (simp_all add: recorded_error_def)
  then show "path' = [START, extract_question, generate_sql, handle_error] \<or>
         path' = [START, extract_question, generate_sql, execute_query, handle_error]"
    and "final_answer st' = Some (error_answer (recorded_error st'))"
    and "messages st' = messages (thread_state cp thread_id) @ input @
          [AIMessage (error_answer (recorded_error st'))]"
    by blast+
qed

section \<open>The claims\<close>

text \<open>
  C7 (sanitization idempotence).  An already sanitized string (no code fence, no trailing
  semicolon, no surrounding white space) is returned unchanged by \<open>_clean_sql\<close>, and the
  fenced text \<open>```sql SELECT 1; ```\<close> is sanitized to \<open>SELECT 1\<close>.
\<close>

theorem clean_sql_sanitized_unchanged:
  "(sanitized s \<longrightarrow> clean_sql s = s) \<and> clean_sql ''```sql SELECT 1; ```'' = ''SELECT 1''"
proof
  show "sanitized s \<longrightarrow> clean_sql s = s"
  proof
    assume san: "sanitized s"
    then have "re_sub_fences s = s"
      by (simp add: sanitized_def re_sub_fences_no_fence)
    moreover from san have "strip s = s"
      by (intro strip_id) (auto simp: sanitized_def)
    moreover from san have "rstrip_chars '';'' s = s"
      unfolding rstrip_chars_def by (intro rstrip_with_id) (auto simp: sanitized_def)
    ultimately show "clean_sql s = s"
      by (simp add: clean_sql_def)
  qed
next
  show "clean_sql ''```sql SELECT 1; ```'' = ''SELECT 1''"
    by (simp add: clean_sql_def strip_def rstrip_chars_def rstrip_with_def isspace_def ieq_def)
qed

theorem clean_sql_sanitized_unchanged_witness:
  "sanitized ''SELECT name FROM samsung_phones LIMIT 5'' \<and>
   clean_sql ''SELECT name FROM samsung_phones LIMIT 5'' = ''SELECT name FROM samsung_phones LIMIT 5''"
  using clean_sql_sanitized_unchanged [of "''SELECT name FROM samsung_phones LIMIT 5''"]
  by (simp add: sanitized_def isspace_def)

text \<open>
  C4 (validity check and invalid-SQL routing).  After \<open>generate_sql\<close> the edge leads to
  \<open>execute_query\<close> exactly when the sanitized reply is longer than 10 characters, and to
  \<open>handle_error\<close> otherwise.  When it is not longer, the turn returns, having visited
  \<open>generate_sql\<close> and then \<open>handle_error\<close>; its final answer is the error template around
  the error recorded in the thread's state, and the store was never called.
\<close>

theorem invalid_sql_routes_to_handle_error:
  fixes self :: "'row PhoneRAGGraph"
  shows "llm_invoke self (sql_messages self q) = Inr raw \<Longrightarrow>
     (question st = Some q \<longrightarrow>
        (\<exists>ws cs. run_node self generate_sql st = Inr (ws, cs) \<and>
           sql_query (apply_writes st ws) = Some (clean_sql raw) \<and>
           next_node generate_sql (apply_writes st ws) =
             Inr (if length (clean_sql raw) > 10 then execute_query else handle_error))) \<and>
     (length (clean_sql raw) \<le> 10 \<longrightarrow>
        (\<exists>st' calls cp'.
           invoke self cp [HumanMessage q] thread_id =
             Inr ((st', calls, [START, extract_question, generate_sql, handle_error]), cp') \<and>
           sql_query st' = Some (clean_sql raw) \<and>
           final_answer st' =
             Some (''I encountered an issue processing your question: '' @
                   recorded_error (thread_state cp thread_id) @
                   ''\<newline>\<newline>Please try rephrasing your question or ask something else about Samsung phones.'') \<and>
           (\<forall>s. Db_execute_query s \<notin> set calls)))"
proof (intro conjI impI)
  assume "llm_invoke self (sql_messages self q) = Inr raw" and "question st = Some q"
  then show "\<exists>ws cs. run_node self generate_sql st = Inr (ws, cs) \<and>
           sql_query (apply_writes st ws) = Some (clean_sql raw) \<and>
           next_node generate_sql (apply_writes st ws) =
             Inr (if length (clean_sql raw) > 10 then execute_query else handle_error)"
    by (auto simp: generate_sql_node_def apply_writes_def check_sql_valid_def
          conditional_edge_def)
next
  assume "llm_invoke self (sql_messages self q) = Inr raw" and "length (clean_sql raw) \<le> 10"
  from invoke_invalid_sql [OF this, of cp thread_id]
  show "\<exists>st' calls cp'.
           invoke self cp [HumanMessage q] thread_id =
             Inr ((st', calls, [START, extract_question, generate_sql, handle_error]), cp') \<and>
           sql_query st' = Some (clean_sql raw) \<and>
           final_answer st' =
             Some (''I encountered an issue processing your question: '' @
                   recorded_error (thread_state cp thread_id) @
                   ''\<newline>\<newline>Please try rephrasing your question or ask something else about Samsung phones.'') \<and>
           (\<forall>s. Db_execute_query s \<notin> set calls)"
    by (auto simp: error_answer_def)
qed

theorem invalid_sql_routes_to_handle_error_witness:
  "llm_invoke (stub_agent (Inr ''no'') (Inr []) (Inr ''unused''))
     (sql_messages (stub_agent (Inr ''no'') (Inr []) (Inr ''unused'')) ''Which phones have 5G?'') = Inr ''no'' \<and>
   question (empty_state\<lparr>question := Some ''Which phones have 5G?''\<rparr> :: row RAGState) =
     Some ''Which phones have 5G?'' \<and>
   (\<exists>ws cs. run_node (stub_agent (Inr ''no'') (Inr []) (Inr ''unused'')) generate_sql
               (empty_state\<lparr>question := Some ''Which phones have 5G?''\<rparr>) = Inr (ws, cs) \<and>
      sql_query (apply_writes (empty_state\<lparr>question := Some ''Which phones have 5G?''\<rparr>) ws) = Some ''no'' \<and>
      next_node generate_sql (apply_writes (empty_state\<lparr>question := Some ''Which phones have 5G?''\<rparr>) ws) =
        Inr handle_error) \<and>
   length (clean_sql ''no'') \<le> 10 \<and>
   (\<exists>st' calls cp'.
      invoke (stub_agent (Inr ''no'') (Inr []) (Inr ''unused'')) new_checkpointer
        [HumanMessage ''Which phones have 5G?''] ''thread-1'' =
        Inr ((st', calls, [START, extract_question, generate_sql, handle_error]), cp') \<and>
      sql_query st' = Some ''no'' \<and>
      final_answer st' =
        Some ''I encountered an issue processing your question: Unknown error occurred\<newline>\<newline>Please try rephrasing your question or ask something else about Samsung phones.'' \<and>
      (\<forall>s. Db_execute_query s \<notin> set calls))"
  using invalid_sql_routes_to_handle_error
    [of "stub_agent (Inr ''no'') (Inr []) (Inr ''unused'')" "''Which phones have 5G?''" "''no''"
        "empty_state\<lparr>question := Some ''Which phones have 5G?''\<rparr>" new_checkpointer "''thread-1''"]
  by (simp add: clean_sql_no recorded_error_def empty_state_def)

text \<open>
  C8 (HandleError message construction): the code at the failing input.  On a thread whose
  first turn met a store failure, a second turn whose synthesized SQL is too short goes
  from \<open>generate_sql\<close> to \<open>handle_error\<close> without any call to the store, and no error
  occurred in it; its answer is nevertheless the error template around the first turn's
  \<open>Database error\<close> text, not around \<open>Unknown error occurred\<close>.
\<close>

theorem invalid_sql_after_store_failure:
  "map_sum id fst
     (ask_all new_checkpointer
        [(stub_agent (Inr ''SELECT name FROM samsung_phones LIMIT 5'')
            (Inl ''connection lost'') (Inr ''unused''),
          ''Which phone is newest?'', ''thread-1''),
         (stub_agent (Inr ''no'') (Inr []) (Inr ''unused''),
          ''What is the weather?'', ''thread-1'')]) =
   Inr [\<lparr>answer = ''I encountered an issue processing your question: Database error: connection lost\<newline>\<newline>Please try rephrasing your question or ask something else about Samsung phones.'',
         sql = ''SELECT name FROM samsung_phones LIMIT 5'', results = []\<rparr>,
        \<lparr>answer = ''I encountered an issue processing your question: Database error: connection lost\<newline>\<newline>Please try rephrasing your question or ask something else about Samsung phones.'',
         sql = ''no'', results = []\<rparr>] \<and>
   ''I encountered an issue processing your question: Unknown error occurred\<newline>\<newline>Please try rephrasing your question or ask something else about Samsung phones.'' \<noteq>
   ''I encountered an issue processing your question: Database error: connection lost\<newline>\<newline>Please try rephrasing your question or ask something else about Samsung phones.''"
  by (simp add: turn_eval clean_sql_select clean_sql_no error_answer_def)

text \<open>
  C1 (terminal-state totality), in the form that holds of the code.  A turn that reaches
  \<open>END\<close> came through \<open>handle_error\<close> or through \<open>generate_answer\<close> and has a final
  answer.  Through \<open>handle_error\<close>, and through \<open>generate_answer\<close> on an empty row set,
  the final answer is not empty.  Through \<open>generate_answer\<close> on rows it is the reply of
  the last model call stripped of surrounding white space, which is empty exactly when the
  reply holds white space only.
\<close>

theorem final_answer_at_end:
  fixes self :: "'row PhoneRAGGraph"
  assumes "invoke self cp input thread_id = Inr ((st', calls, path), cp')"
  shows "(last path = handle_error \<or> last path = generate_answer) \<and>
     (\<exists>a. final_answer st' = Some a \<and>
        (last path = handle_error \<longrightarrow> a \<noteq> []) \<and>
        (last path = generate_answer \<and> db_results st' = Some [] \<longrightarrow>
           a = no_results_answer \<and> a \<noteq> []) \<and>
        (last path = generate_answer \<and> db_results st' \<noteq> Some [] \<longrightarrow>
           (\<exists>msgs reply. last calls = Llm_invoke msgs \<and> llm_invoke self msgs = Inr reply \<and>
              a = strip reply \<and> (a = [] \<longleftrightarrow> (\<forall>c \<in> set reply. isspace c)))))"
proof -
  from assms have "run_from self START
           ((thread_state cp thread_id)\<lparr>messages := messages (thread_state cp thread_id) @ input\<rparr>,
            [], []) = Inr (st', calls, path)"
    by (rule invoke_InrD(1))
  then show ?thesis
    by (cases rule: turn_cases)
       (simp_all add: error_answer_nonempty no_results_answer_nonempty strip_empty_iff)
qed

theorem final_answer_at_end_witness:
  "(\<exists>st' calls path cp'.
      invoke (stub_agent (Inr ''no'') (Inr []) (Inr ''unused''))
        new_checkpointer [HumanMessage ''Which phone is newest?''] ''thread-1'' =
        Inr ((st', calls, path), cp') \<and>
      last path = handle_error \<and> (\<exists>a. final_answer st' = Some a \<and> a \<noteq> [])) \<and>
   (\<exists>st' calls path cp'.
      invoke (stub_agent (Inr ''SELECT name FROM samsung_phones LIMIT 5'') (Inr []) (Inr ''unused''))
        new_checkpointer [HumanMessage ''Which phone is newest?''] ''thread-1'' =
        Inr ((st', calls, path), cp') \<and>
      last path = generate_answer \<and> db_results st' = Some [] \<and>
      final_answer st' = Some no_results_answer) \<and>
   (\<exists>st' calls path cp'.
      invoke (stub_agent (Inr ''SELECT name FROM samsung_phones LIMIT 5'')
                (Inr [[(''name'', ''Galaxy S25'')]]) (Inr '' The Galaxy S25. ''))
        new_checkpointer [HumanMessage ''Which phone is newest?''] ''thread-1'' =
        Inr ((st', calls, path), cp') \<and>
      last path = generate_answer \<and> db_results st' \<noteq> Some [] \<and>
      final_answer st' = Some ''The Galaxy S25.'')"
proof (intro conjI)
  let ?self = "stub_agent (Inr ''no'') (Inr []) (Inr ''unused'')"
  obtain st' :: "row RAGState" and calls path cp' where
    run: "invoke ?self new_checkpointer [HumanMessage ''Which phone is newest?''] ''thread-1'' =
       Inr ((st', calls, path), cp')"
    and path: "last path = handle_error"
    using invoke_invalid_sql [of ?self "''Which phone is newest?''" "''no''" new_checkpointer "''thread-1''"]
    by (auto simp: clean_sql_no)
  from final_answer_at_end [OF run] path
  have "\<exists>a. final_answer st' = Some a \<and> a \<noteq> []" by auto
  with run path show "\<exists>st' calls path cp'.
      invoke ?self new_checkpointer [HumanMessage ''Which phone is newest?''] ''thread-1'' =
        Inr ((st', calls, path), cp') \<and>
      last path = handle_error \<and> (\<exists>a. final_answer st' = Some a \<and> a \<noteq> [])"
    by blast
next
  let ?self = "stub_agent (Inr ''SELECT name FROM samsung_phones LIMIT 5'') (Inr []) (Inr ''unused'')"
  obtain st' :: "row RAGState" and calls path cp' where
    run: "invoke ?self new_checkpointer [HumanMessage ''Which phone is newest?''] ''thread-1'' =
       Inr ((st', calls, path), cp')"
    and path: "last path = generate_answer"
    and rows: "db_results st' = Some []"
    using invoke_no_rows [of ?self "''Which phone is newest?''"
        "''SELECT name FROM samsung_phones LIMIT 5''" new_checkpointer "''thread-1''"]
    by (auto simp: clean_sql_select empty_state_def)
  from final_answer_at_end [OF run] path rows
  have "final_answer st' = Some no_results_answer" by auto
  with run path rows show "\<exists>st' calls path cp'.
      invoke ?self new_checkpointer [HumanMessage ''Which phone is newest?''] ''thread-1'' =
        Inr ((st', calls, path), cp') \<and>
      last path = generate_answer \<and> db_results st' = Some [] \<and>
      final_answer st' = Some no_results_answer"
    by blast
next
  let ?self = "stub_agent (Inr ''SELECT name FROM samsung_phones LIMIT 5'')
                (Inr [[(''name'', ''Galaxy S25'')]]) (Inr '' The Galaxy S25. '')"
  obtain st' :: "row RAGState" and calls path cp' where
    run: "invoke ?self new_checkpointer [HumanMessage ''Which phone is newest?''] ''thread-1'' =
       Inr ((st', calls, path), cp')"
    and path: "last path = generate_answer"
    and calls: "last calls = Llm_invoke (answer_messages ?self ''Which phone is newest?''
               [[(''name'', ''Galaxy S25'')]])"
    and rows: "db_results st' = Some [[(''name'', ''Galaxy S25'')]]"
    using invoke_answered
      [of ?self "''Which phone is newest?''" "''SELECT name FROM samsung_phones LIMIT 5''"
          "[[(''name'', ''Galaxy S25'')]]" new_checkpointer "''thread-1''" "'' The Galaxy S25. ''"]
    by (auto simp: clean_sql_select empty_state_def)
  from final_answer_at_end [OF run] path calls rows
  have "final_answer st' = Some (strip '' The Galaxy S25. '')"
    by auto
  then have "final_answer st' = Some ''The Galaxy S25.''"
    by (simp add: strip_def rstrip_with_def isspace_def)
  with run path rows show "\<exists>st' calls path cp'.
      invoke ?self new_checkpointer [HumanMessage ''Which phone is newest?''] ''thread-1'' =
        Inr ((st', calls, path), cp') \<and>
      last path = generate_answer \<and> db_results st' \<noteq> Some [] \<and>
      final_answer st' = Some ''The Galaxy S25.''"
    by auto
qed

theorem final_answer_empty_counterexample:
  "map_sum id fst
     (ask (stub_agent (Inr ''SELECT name FROM samsung_phones LIMIT 5'')
             (Inr [[(''name'', ''Galaxy S25'')]]) (Inr ''  ''))
        new_checkpointer ''Which phone is newest?'' ''thread-1'') =
   Inr \<lparr>answer = [], sql = ''SELECT name FROM samsung_phones LIMIT 5'',
        results = [[(''name'', ''Galaxy S25'')]]\<rparr>"
proof -
  obtain st' :: "row RAGState" and calls path cp' where
    "invoke (stub_agent (Inr ''SELECT name FROM samsung_phones LIMIT 5'')
               (Inr [[(''name'', ''Galaxy S25'')]]) (Inr ''  ''))
       new_checkpointer [HumanMessage ''Which phone is newest?''] ''thread-1'' =
       Inr ((st', calls, path), cp')"
    and "final_answer st' = Some (strip ''  '')"
    and "sql_query st' = Some ''SELECT name FROM samsung_phones LIMIT 5''"
    and "db_results st' = Some [[(''name'', ''Galaxy S25'')]]"
    using invoke_answered
      [of "stub_agent (Inr ''SELECT name FROM samsung_phones LIMIT 5'')
               (Inr [[(''name'', ''Galaxy S25'')]]) (Inr ''  '')"
          "''Which phone is newest?''" "''SELECT name FROM samsung_phones LIMIT 5''"
          "[[(''name'', ''Galaxy S25'')]]" new_checkpointer "''thread-1''" "''  ''"]
    by (auto simp: clean_sql_select empty_state_def)
  then show ?thesis
    by (simp add: ask_def strip_def rstrip_with_def isspace_def)
qed

text \<open>
  C5 (store-failure routing): the code at the failing input.  On a thread whose first turn
  returned a row, a second turn in which the store raises is answered with the error
  template around the store's error text, but its rows are not empty: \<open>ask\<close> returns the
  row of the first turn.
\<close>

theorem store_failure_after_rows:
  "map_sum id fst
     (ask_all new_checkpointer
        [(stub_agent (Inr ''SELECT name FROM samsung_phones LIMIT 5'')
            (Inr [[(''name'', ''Galaxy S25'')]]) (Inr ''The Galaxy S25.''),
          ''Which phone is newest?'', ''thread-1''),
         (stub_agent (Inr ''SELECT name FROM samsung_phones LIMIT 5'')
            (Inl ''connection lost'') (Inr ''unused''),
          ''And which is the oldest?'', ''thread-1'')]) =
   Inr [\<lparr>answer = ''The Galaxy S25.'', sql = ''SELECT name FROM samsung_phones LIMIT 5'',
         results = [[(''name'', ''Galaxy S25'')]]\<rparr>,
        \<lparr>answer = ''I encountered an issue processing your question: Database error: connection lost\<newline>\<newline>Please try rephrasing your question or ask something else about Samsung phones.'',
         sql = ''SELECT name FROM samsung_phones LIMIT 5'',
         results = [[(''name'', ''Galaxy S25'')]]\<rparr>]"
  by (simp add: turn_eval clean_sql_select error_answer_def strip_def rstrip_with_def isspace_def)

text \<open>
  C10 (error-path frame property): the code at the failing input.  On a thread whose first
  turn returned a row, a second turn whose synthesized SQL is too short ends in
  \<open>handle_error\<close>; \<open>ask\<close> returns the error answer and that SQL, but under results the
  row of the first turn and not the empty list.
\<close>

theorem invalid_sql_after_rows:
  "map_sum id fst
     (ask_all new_checkpointer
        [(stub_agent (Inr ''SELECT name FROM samsung_phones LIMIT 5'')
            (Inr [[(''name'', ''Galaxy S25'')]]) (Inr ''The Galaxy S25.''),
          ''Which phone is newest?'', ''thread-1''),
         (stub_agent (Inr ''no'') (Inr []) (Inr ''unused''),
          ''And which is the oldest?'', ''thread-1'')]) =
   Inr [\<lparr>answer = ''The Galaxy S25.'', sql = ''SELECT name FROM samsung_phones LIMIT 5'',
         results = [[(''name'', ''Galaxy S25'')]]\<rparr>,
        \<lparr>answer = ''I encountered an issue processing your question: Unknown error occurred\<newline>\<newline>Please try rephrasing your question or ask something else about Samsung phones.'',
         sql = ''no'',
         results = [[(''name'', ''Galaxy S25'')]]\<rparr>]"
  by (simp add: turn_eval clean_sql_select clean_sql_no error_answer_def strip_def
        rstrip_with_def isspace_def)

text \<open>
  C3 (empty-result short-circuit): the code at the failing input.  On a thread whose first
  turn met a store failure, a second turn in which the store executes the query and returns
  no rows does not get the canned message: its answer is the error template around the
  first turn's error.
\<close>

theorem empty_result_after_store_failure:
  "map_sum id fst
     (ask_all new_checkpointer
        [(stub_agent (Inr ''SELECT name FROM samsung_phones LIMIT 5'')
            (Inl ''connection lost'') (Inr ''unused''),
          ''Which phone is newest?'', ''thread-1''),
         (stub_agent (Inr ''SELECT name FROM samsung_phones LIMIT 5'')
            (Inr []) (Inr ''unused''),
          ''Which phones cost nothing?'', ''thread-1'')]) =
   Inr [\<lparr>answer = ''I encountered an issue processing your question: Database error: connection lost\<newline>\<newline>Please try rephrasing your question or ask something else about Samsung phones.'',
         sql = ''SELECT name FROM samsung_phones LIMIT 5'', results = []\<rparr>,
        \<lparr>answer = ''I encountered an issue processing your question: Database error: connection lost\<newline>\<newline>Please try rephrasing your question or ask something else about Samsung phones.'',
         sql = ''SELECT name FROM samsung_phones LIMIT 5'', results = []\<rparr>] \<and>
   no_results_answer \<noteq>
     ''I encountered an issue processing your question: Database error: connection lost\<newline>\<newline>Please try rephrasing your question or ask something else about Samsung phones.''"
  by (simp add: turn_eval clean_sql_select error_answer_def no_results_answer_def)

text \<open>
  C9 (ExtractQuestion behaviour), in the form that holds of the code.  On a state whose
  messages end with \<open>m\<close>, the node \<open>extract_question\<close> returns, writing as question the
  content of \<open>m\<close> when \<open>m\<close> is a \<open>HumanMessage\<close>.  For any other message the question
  is \<open>str(m)\<close>, the dump of the message's fields: it starts with \<open>content=\<close> and the
  content as \<open>repr\<close> quotes it, and is never the content itself.  A call of \<open>ask\<close> never
  fails in this node, and when the turn returns, the question in its state is the question
  asked.
\<close>

theorem extract_question_reads_last_message:
  fixes self :: "'row PhoneRAGGraph"
  shows
    "run_node self extract_question (apply_writes st [W_messages (ms @ [m])]) =
       Inr ([W_question (case m of HumanMessage c \<Rightarrow> c
                         | AIMessage c \<Rightarrow> ''content='' @ py_repr c @ repr_rest self (AIMessage c)
                         | SystemMessage c \<Rightarrow>
                             ''content='' @ py_repr c @ repr_rest self (SystemMessage c))], []) \<and>
     ''content='' @ py_repr c @ rest \<noteq> c \<and>
     invoke self cp [HumanMessage q] thread_id \<noteq> Inl IndexError \<and>
     (invoke self cp [HumanMessage q] thread_id = Inr ((st', calls, path), cp') \<longrightarrow>
        question st' = Some q \<and> extract_question \<in> set path)"
proof (intro conjI impI)
  show "run_node self extract_question (apply_writes st [W_messages (ms @ [m])]) =
       Inr ([W_question (case m of HumanMessage c \<Rightarrow> c
                         | AIMessage c \<Rightarrow> ''content='' @ py_repr c @ repr_rest self (AIMessage c)
                         | SystemMessage c \<Rightarrow>
                             ''content='' @ py_repr c @ repr_rest self (SystemMessage c))], [])"
    by (cases m)
       (simp_all add: extract_question_node_def apply_writes_def add_messages_def question_of_def
          message_str_def)
next
  show "''content='' @ py_repr c @ rest \<noteq> c"
  proof
    assume "''content='' @ py_repr c @ rest = c"
    then have "length (''content='' @ py_repr c @ rest) = length c" by simp
    with py_repr_length [of c] show False by simp
  qed
next
  show "invoke self cp [HumanMessage q] thread_id \<noteq> Inl IndexError"
    by (auto simp: invoke_run run_from_START run_from_generate_sql run_from_execute_query
          run_from_generate_answer run_from_handle_error
          split: sum.splits option.splits if_splits)
next
  assume "invoke self cp [HumanMessage q] thread_id = Inr ((st', calls, path), cp')"
  then have "run_from self START
       ((thread_state cp thread_id)\<lparr>messages := messages (thread_state cp thread_id) @ [HumanMessage q]\<rparr>,
        [], []) = Inr (st', calls, path)"
    by (rule invoke_InrD(1))
  then have "question st' = Some q \<and> extract_question \<in> set path"
    by (cases rule: turn_cases) (simp_all add: question_of_def)
  then show "question st' = Some q" and "extract_question \<in> set path" by blast+
qed

theorem extract_question_reads_last_message_witness:
  "\<exists>st' calls path cp'.
     invoke (stub_agent (Inr ''no'') (Inr []) (Inr ''unused'')) new_checkpointer
       [HumanMessage ''Which phones have 5G?''] ''thread-1'' = Inr ((st', calls, path), cp') \<and>
     question st' = Some ''Which phones have 5G?'' \<and> extract_question \<in> set path \<and>
     run_node (stub_agent (Inr ''no'') (Inr []) (Inr ''unused'')) extract_question
       (apply_writes empty_state [W_messages ([HumanMessage ''Which phones have 5G?''] @ [AIMessage ''hi''])]) =
       Inr ([W_question ''content='hi' additional_kwargs={} response_metadata={}''], [])"
proof -
  let ?self = "stub_agent (Inr ''no'') (Inr []) (Inr ''unused'')"
  obtain st' :: "row RAGState" and calls path cp' where
    run: "invoke ?self new_checkpointer [HumanMessage ''Which phones have 5G?''] ''thread-1'' =
            Inr ((st', calls, path), cp')"
    using invoke_invalid_sql [of ?self "''Which phones have 5G?''" "''no''" new_checkpointer "''thread-1''"]
    by (auto simp: clean_sql_no)
  from extract_question_reads_last_message
    [of ?self empty_state "[HumanMessage ''Which phones have 5G?'']" "AIMessage ''hi''"
        "''hi''" "[]" new_checkpointer "''Which phones have 5G?''" "''thread-1''" st' calls path cp'] run
  have "question st' = Some ''Which phones have 5G?'' \<and> extract_question \<in> set path"
    and "run_node ?self extract_question
       (apply_writes empty_state [W_messages ([HumanMessage ''Which phones have 5G?''] @ [AIMessage ''hi''])]) =
       Inr ([W_question (''content='' @ py_repr ''hi'' @ repr_rest ?self (AIMessage ''hi''))], [])"
    by auto
  moreover have "''content='' @ py_repr ''hi'' @ repr_rest ?self (AIMessage ''hi'') =
      ''content='hi' additional_kwargs={} response_metadata={}''"
    by (simp add: py_repr_def Let_def repr_char_def printable_def stub_agent_def)
  ultimately show ?thesis using run by auto
qed

theorem extract_question_field_dump_counterexample:
  "run_node (stub_agent (Inr ''no'') (Inr []) (Inr ''unused'')) extract_question
     (apply_writes empty_state [W_messages [HumanMessage ''Which phones have 5G?'', AIMessage ''hi'']]) =
     Inr ([W_question ''content='hi' additional_kwargs={} response_metadata={}''], []) \<and>
   ''content='hi' additional_kwargs={} response_metadata={}'' \<noteq> ''hi''"
  by (simp add: extract_question_node_def apply_writes_def add_messages_def question_of_def
        message_str_def py_repr_def Let_def repr_char_def printable_def stub_agent_def
        empty_state_def)

text \<open>
  C2 (append-only history).  After a sequence of calls to \<open>ask\<close> that all returned, the
  history of a thread is its history before the sequence followed, for each call on that
  thread in call order, by the question as user message and the returned answer as
  assistant message.  From a new checkpointer, \<open>N\<close> calls on a thread leave a history of
  \<open>2N\<close> entries.
\<close>

theorem history_append_only:
  fixes cp :: "'row checkpointer"
  assumes "ask_all cp asks = Inr (rs, cp')"
  shows "length rs = length asks \<and>
         get_conversation_history cp' t =
           get_conversation_history cp t @
           concat (map (\<lambda>((self, q, thread_id), r). [HumanMessage q, AIMessage (answer r)])
                     (filter (\<lambda>((self, q, thread_id), r). thread_id = t) (zip asks rs))) \<and>
         length (get_conversation_history cp' t) =
           length (get_conversation_history cp t) +
           2 * length (filter (\<lambda>(self, q, thread_id). thread_id = t) asks) \<and>
         (cp = new_checkpointer \<longrightarrow>
            length (get_conversation_history cp' t) =
              2 * length (filter (\<lambda>(self, q, thread_id). thread_id = t) asks))"
proof -
  from ask_all_history [OF assms, of t]
  have len: "length rs = length asks"
    and hist: "get_conversation_history cp' t =
           get_conversation_history cp t @
           concat (map (\<lambda>((self, q, thread_id), r). [HumanMessage q, AIMessage (answer r)])
                     (filter (\<lambda>((self, q, thread_id), r). thread_id = t) (zip asks rs)))"
    by blast+
  from len [symmetric] have count: "length (filter (\<lambda>((self, q, thread_id), r). thread_id = t) (zip asks rs)) =
      length (filter (\<lambda>(self, q, thread_id). thread_id = t) asks)"
  proof (induction asks rs rule: list_induct2)
    case Nil
    show ?case by simp
  next
    case (Cons a asks r rs)
    then show ?case by (cases a) auto
  qed
  have "length (concat (map (\<lambda>((self, q, thread_id), r). [HumanMessage q, AIMessage (answer r)]) xs))
      = 2 * length xs" for xs :: "(('row PhoneRAGGraph \<times> string \<times> string) \<times> 'row ask_result) list"
    by (induction xs) auto
  with hist count have n: "length (get_conversation_history cp' t) =
           length (get_conversation_history cp t) +
           2 * length (filter (\<lambda>(self, q, thread_id). thread_id = t) asks)"
    by simp
  have "get_conversation_history (new_checkpointer :: 'row checkpointer) t = []"
    by (simp add: get_conversation_history_def new_checkpointer_def)
  with len hist n show ?thesis by auto
qed

theorem history_append_only_witness:
  "\<exists>rs cp'.
     ask_all new_checkpointer
        [(stub_agent (Inr ''SELECT name FROM samsung_phones LIMIT 5'')
            (Inr [[(''name'', ''Galaxy S25'')]]) (Inr ''The Galaxy S25.''),
          ''Which phone is newest?'', ''thread-1''),
         (stub_agent (Inr ''no'') (Inr []) (Inr ''unused''),
          ''What is the weather?'', ''thread-2''),
         (stub_agent (Inr ''SELECT name FROM samsung_phones LIMIT 5'')
            (Inr []) (Inr ''unused''),
          ''Which phones cost nothing?'', ''thread-1'')] = Inr (rs, cp') \<and>
     get_conversation_history cp' ''thread-1'' =
       [HumanMessage ''Which phone is newest?'', AIMessage ''The Galaxy S25.'',
        HumanMessage ''Which phones cost nothing?'', AIMessage no_results_answer] \<and>
     length (get_conversation_history cp' ''thread-1'') = 2 * 2"
proof -
  let ?asks = "[(stub_agent (Inr ''SELECT name FROM samsung_phones LIMIT 5'')
            (Inr [[(''name'', ''Galaxy S25'')]]) (Inr ''The Galaxy S25.''),
          ''Which phone is newest?'', ''thread-1''),
         (stub_agent (Inr ''no'') (Inr []) (Inr ''unused''),
          ''What is the weather?'', ''thread-2''),
         (stub_agent (Inr ''SELECT name FROM samsung_phones LIMIT 5'')
            (Inr []) (Inr ''unused''),
          ''Which phones cost nothing?'', ''thread-1'')]"
  have "\<exists>cp'. ask_all new_checkpointer ?asks =
      Inr ([\<lparr>answer = ''The Galaxy S25.'', sql = ''SELECT name FROM samsung_phones LIMIT 5'',
              results = [[(''name'', ''Galaxy S25'')]]\<rparr>,
            \<lparr>answer = error_answer ''Unknown error occurred'', sql = ''no'', results = []\<rparr>,
            \<lparr>answer = no_results_answer, sql = ''SELECT name FROM samsung_phones LIMIT 5'',
              results = []\<rparr>], cp')"
    by (simp add: turn_eval clean_sql_select clean_sql_no strip_def rstrip_with_def isspace_def)
  then obtain cp' where run: "ask_all new_checkpointer ?asks =
      Inr ([\<lparr>answer = ''The Galaxy S25.'', sql = ''SELECT name FROM samsung_phones LIMIT 5'',
              results = [[(''name'', ''Galaxy S25'')]]\<rparr>,
            \<lparr>answer = error_answer ''Unknown error occurred'', sql = ''no'', results = []\<rparr>,
            \<lparr>answer = no_results_answer, sql = ''SELECT name FROM samsung_phones LIMIT 5'',
              results = []\<rparr>], cp')"
    by blast
  from history_append_only [OF run, of "''thread-1''"]
  have "get_conversation_history cp' ''thread-1'' =
       [HumanMessage ''Which phone is newest?'', AIMessage ''The Galaxy S25.'',
        HumanMessage ''Which phones cost nothing?'', AIMessage no_results_answer]"
    by (simp add: get_conversation_history_def new_checkpointer_def)
  with run show ?thesis by simp
qed

text \<open>
  C6 (sanitization behaviour), in the form that holds of the code.  The substitution drops
  every code fence, bare or with the letters \<open>sql\<close> in any case behind it, and nothing
  else: a string without fence is kept; at the first fence of a string, what stands before
  it is kept, the fence goes, with the tag when it follows, and the rest is treated the
  same way; no fence is left.  The result of \<open>_clean_sql\<close> is the one string \<open>r\<close> that the
  substituted string holds between white space on both sides and, behind \<open>r\<close>, all the
  trailing semicolons (not only one): the stretch made of \<open>r\<close> and these semicolons neither
  starts nor ends with white space, and \<open>r\<close> does not end with a semicolon.
\<close>

theorem clean_sql_strips_fences_space_semicolons:
  "(\<not> has_fence u \<longrightarrow> re_sub_fences u = u) \<and>
   (has_fence v \<longrightarrow> (\<exists>t rest. v = t @ ''```'' @ rest \<and> \<not> has_fence (t @ ''``''))) \<and>
   (\<not> has_fence (t @ ''``'') \<and> list_all2 ieq ''sql'' tag \<longrightarrow>
      re_sub_fences (t @ ''```'' @ tag @ s) = t @ re_sub_fences s) \<and>
   (\<not> has_fence (t @ ''``'') \<and> \<not> list_all2 ieq ''sql'' (take 3 s) \<longrightarrow>
      re_sub_fences (t @ ''```'' @ s) = t @ re_sub_fences s) \<and>
   \<not> has_fence (re_sub_fences s) \<and>
   (r = clean_sql s \<longleftrightarrow>
      (\<exists>ws1 ws2 n. re_sub_fences s = ws1 @ r @ replicate n (CHR '';'') @ ws2 \<and>
         (\<forall>c \<in> set ws1 \<union> set ws2. isspace c) \<and>
         (r @ replicate n (CHR '';'') = [] \<or>
          (\<not> isspace (hd (r @ replicate n (CHR '';''))) \<and>
           \<not> isspace (last (r @ replicate n (CHR '';''))))) \<and>
         (r = [] \<or> last r \<noteq> CHR '';'')))"
proof -
  have keep: "re_sub_fences u = u" if "\<not> has_fence u"
    using that by (rule re_sub_fences_no_fence)
  have first: "\<exists>t rest. v = t @ ''```'' @ rest \<and> \<not> has_fence (t @ ''``'')" if "has_fence v"
    using that by (rule first_fence)
  have tagged: "re_sub_fences (t @ ''```'' @ tag @ s) = t @ re_sub_fences s"
    if "\<not> has_fence (t @ ''``'') \<and> list_all2 ieq ''sql'' tag"
  proof -
    from that have "length tag = 3" by (auto dest: list_all2_lengthD)
    with that have "re_sub_fences (''```'' @ tag @ s) = re_sub_fences s" by simp
    with that re_sub_fences_skip [of t "tag @ s"] show ?thesis by simp
  qed
  have bare: "re_sub_fences (t @ ''```'' @ s) = t @ re_sub_fences s"
    if "\<not> has_fence (t @ ''``'') \<and> \<not> list_all2 ieq ''sql'' (take 3 s)"
  proof -
    from that have "re_sub_fences (''```'' @ s) = re_sub_fences s" by simp
    with that re_sub_fences_skip [of t s] show ?thesis by simp
  qed
  have none: "\<not> has_fence (re_sub_fences s)" by (rule re_sub_fences_removes_fences)
  have char: "r = clean_sql s \<longleftrightarrow>
      (\<exists>ws1 ws2 n. re_sub_fences s = ws1 @ r @ replicate n (CHR '';'') @ ws2 \<and>
         (\<forall>c \<in> set ws1 \<union> set ws2. isspace c) \<and>
         (r @ replicate n (CHR '';'') = [] \<or>
          (\<not> isspace (hd (r @ replicate n (CHR '';''))) \<and>
           \<not> isspace (last (r @ replicate n (CHR '';''))))) \<and>
         (r = [] \<or> last r \<noteq> CHR '';''))"
  proof
    assume "r = clean_sql s"
    with clean_sql_decomposition [of s]
    show "\<exists>ws1 ws2 n. re_sub_fences s = ws1 @ r @ replicate n (CHR '';'') @ ws2 \<and>
         (\<forall>c \<in> set ws1 \<union> set ws2. isspace c) \<and>
         (r @ replicate n (CHR '';'') = [] \<or>
          (\<not> isspace (hd (r @ replicate n (CHR '';''))) \<and>
           \<not> isspace (last (r @ replicate n (CHR '';''))))) \<and>
         (r = [] \<or> last r \<noteq> CHR '';'')"
      by simp
  next
    assume "\<exists>ws1 ws2 n. re_sub_fences s = ws1 @ r @ replicate n (CHR '';'') @ ws2 \<and>
         (\<forall>c \<in> set ws1 \<union> set ws2. isspace c) \<and>
         (r @ replicate n (CHR '';'') = [] \<or>
          (\<not> isspace (hd (r @ replicate n (CHR '';''))) \<and>
           \<not> isspace (last (r @ replicate n (CHR '';''))))) \<and>
         (r = [] \<or> last r \<noteq> CHR '';'')"
    then obtain ws1 ws2 n where "re_sub_fences s = ws1 @ r @ replicate n (CHR '';'') @ ws2"
      and "\<forall>c \<in> set ws1 \<union> set ws2. isspace c"
      and "r @ replicate n (CHR '';'') = [] \<or>
          (\<not> isspace (hd (r @ replicate n (CHR '';''))) \<and>
           \<not> isspace (last (r @ replicate n (CHR '';''))))"
      and "r = [] \<or> last r \<noteq> CHR '';''"
      by blast
    then have "clean_sql s = r" by (rule clean_sql_unique)
    then show "r = clean_sql s" by simp
  qed
  from keep first tagged bare none char show ?thesis by blast
qed

theorem clean_sql_strips_fences_space_semicolons_witness:
  "\<not> has_fence ''SELECT 1'' \<and> re_sub_fences ''SELECT 1'' = ''SELECT 1'' \<and>
   has_fence ''Query: ```SQL SELECT 1;; ```'' \<and>
   (\<exists>t rest. ''Query: ```SQL SELECT 1;; ```'' = t @ ''```'' @ rest \<and> \<not> has_fence (t @ ''``'')) \<and>
   \<not> has_fence (''Query: '' @ ''``'') \<and> list_all2 ieq ''sql'' ''SQL'' \<and>
   re_sub_fences (''Query: '' @ ''```'' @ ''SQL'' @ '' SELECT 1;; ```'') =
     ''Query: '' @ re_sub_fences '' SELECT 1;; ```'' \<and>
   \<not> list_all2 ieq ''sql'' (take 3 '' SELECT 1;; ```'') \<and>
   re_sub_fences (''Query: '' @ ''```'' @ '' SELECT 1;; ```'') =
     ''Query: '' @ re_sub_fences '' SELECT 1;; ```'' \<and>
   ''SELECT 1'' = clean_sql '' SELECT 1;; ```'' \<and>
   (\<exists>ws1 ws2 n. re_sub_fences '' SELECT 1;; ```'' = ws1 @ ''SELECT 1'' @ replicate n (CHR '';'') @ ws2 \<and>
      (\<forall>c \<in> set ws1 \<union> set ws2. isspace c) \<and>
      \<not> isspace (hd (''SELECT 1'' @ replicate n (CHR '';''))) \<and>
      \<not> isspace (last (''SELECT 1'' @ replicate n (CHR '';''))))"
proof -
  have h1: "\<not> has_fence ''SELECT 1''" by simp
  have h2: "has_fence ''Query: ```SQL SELECT 1;; ```''" by simp
  have h3: "\<not> has_fence (''Query: '' @ ''``'')" by simp
  have h4: "list_all2 ieq ''sql'' ''SQL''" by (simp add: ieq_def)
  have h5: "\<not> list_all2 ieq ''sql'' (take 3 '' SELECT 1;; ```'')" by (simp add: ieq_def)
  have h6: "''SELECT 1'' = clean_sql '' SELECT 1;; ```''"
    by (simp add: clean_sql_def strip_def rstrip_chars_def rstrip_with_def isspace_def ieq_def)
  from clean_sql_strips_fences_space_semicolons
    [of "''SELECT 1''" "''Query: ```SQL SELECT 1;; ```''" "''Query: ''" "''SQL''"
        "'' SELECT 1;; ```''" "''SELECT 1''"]
    h1 h2 h3 h4 h5 h6
  have "re_sub_fences ''SELECT 1'' = ''SELECT 1''"
    and "\<exists>t rest. ''Query: ```SQL SELECT 1;; ```'' = t @ ''```'' @ rest \<and> \<not> has_fence (t @ ''``'')"
    and "re_sub_fences (''Query: '' @ ''```'' @ ''SQL'' @ '' SELECT 1;; ```'') =
     ''Query: '' @ re_sub_fences '' SELECT 1;; ```''"
    and "re_sub_fences (''Query: '' @ ''```'' @ '' SELECT 1;; ```'') =
     ''Query: '' @ re_sub_fences '' SELECT 1;; ```''"
    and "\<exists>ws1 ws2 n. re_sub_fences '' SELECT 1;; ```'' = ws1 @ ''SELECT 1'' @ replicate n (CHR '';'') @ ws2 \<and>
      (\<forall>c \<in> set ws1 \<union> set ws2. isspace c) \<and>
      (''SELECT 1'' @ replicate n (CHR '';'') = [] \<or>
       (\<not> isspace (hd (''SELECT 1'' @ replicate n (CHR '';''))) \<and>
        \<not> isspace (last (''SELECT 1'' @ replicate n (CHR '';''))))) \<and>
      (''SELECT 1'' = [] \<or> last ''SELECT 1'' \<noteq> CHR '';'')"
    by blast+
  with h1 h2 h3 h4 h5 h6 show ?thesis by auto
qed

theorem clean_sql_two_semicolons_counterexample:
  "clean_sql ''SELECT 1;;'' = ''SELECT 1'' \<and> clean_sql ''SELECT 1;;'' \<noteq> ''SELECT 1;''"
  by (simp add: clean_sql_def strip_def rstrip_chars_def rstrip_with_def isspace_def)

end
